theory Spec2Isabelle
  imports Main
begin

section \<open>JavaScript values\<close>

text \<open>
  The handlers of \<^verbatim>\<open>server.js\<close> move JSON payloads of the WordPress REST API into the
  data bag of a template. A JavaScript Number is an IEEE double; the only numbers the
  handlers compute are results of \<^verbatim>\<open>parseInt\<close>, which are integral, infinite or NaN.
  \<open>Num n\<close> is the double whose value is the integer \<open>n\<close> (the two zeros \<open>+0\<close> and \<open>-0\<close>
  are both \<open>Num 0\<close>: the code only tests them for truthiness, and both are falsy).
  Fractional numbers of a payload are never inspected by the handlers and have no
  constructor. Strings are sequences of 8-bit code units (the Latin-1 range of the
  UTF-16 code units of a JavaScript string). An object is an association list in
  insertion order; lookup takes the first binding of a key.
\<close>

datatype jsnum = NaN | PosInf | NegInf | Num int

datatype jsval =
    JUndefined
  | JNull
  | JBool bool
  | JNum jsnum
  | JStr string
  | JArr "jsval list"
  | JObj "(string \<times> jsval) list"

type_synonym jsobject = "(string \<times> jsval) list"

datatype js_error =
    Error string        \<comment> \<open>\<^verbatim>\<open>throw new Error(msg)\<close>\<close>
  | TypeError string    \<comment> \<open>property read on \<^verbatim>\<open>null\<close> or \<^verbatim>\<open>undefined\<close>\<close>
  | AxiosError string   \<comment> \<open>network failure or non-2xx status of an upstream call\<close>

subsection \<open>Number conversion: the double nearest to a natural number\<close>

fun bit_length :: "nat \<Rightarrow> nat" where
  "bit_length n = (if n = 0 then 0 else Suc (bit_length (n div 2)))"

declare bit_length.simps [simp del]

text \<open>
  A double has a 53-bit significand: naturals below \<open>2 ^ 53\<close> are exact, larger ones are
  rounded to the nearest multiple of \<open>2 ^ e\<close> that has 53 significant bits, ties to the
  even significand, and a result of \<open>2 ^ 1024\<close> or more is \<^verbatim>\<open>Infinity\<close>. This is the
  correctly rounded value, which Node's \<^verbatim>\<open>parseInt\<close> returns.
\<close>

definition to_number :: "nat \<Rightarrow> jsnum" where
  "to_number n =
     (if n < 2 ^ 53 then Num (int n)
      else
        let e = bit_length n - 53;
            q = n div 2 ^ e;
            r = n mod 2 ^ e;
            h = 2 ^ (e - 1);
            q' = (if h < r \<or> (r = h \<and> odd q) then q + 1 else q)
        in if 2 ^ 1024 \<le> q' * 2 ^ e then PosInf else Num (int (q' * 2 ^ e)))"

fun negate :: "jsnum \<Rightarrow> jsnum" where
  "negate NaN = NaN"
| "negate PosInf = NegInf"
| "negate NegInf = PosInf"
| "negate (Num n) = Num (- n)"

subsection \<open>\<^verbatim>\<open>parseInt(x, 10)\<close>\<close>

text \<open>
  ECMAScript \<^verbatim>\<open>parseInt(string, radix)\<close> with radix 10, as both call sites have it:
  the argument is converted to a string (\<^verbatim>\<open>undefined\<close> becomes \<^verbatim>\<open>"undefined"\<close>), leading
  white space is dropped, one sign is read, the longest prefix of decimal digits is
  taken (\<^verbatim>\<open>0x\<close> is not a prefix for radix 10), and an empty prefix gives NaN.
  The argument is a route parameter or a response header: a string, or absent.
\<close>

definition is_space :: "char \<Rightarrow> bool" where
  "is_space c = (of_char c \<in> {9, 10, 11, 12, 13, 32, 160 :: nat})"

definition is_digit :: "char \<Rightarrow> bool" where
  "is_digit c = (48 \<le> (of_char c :: nat) \<and> (of_char c :: nat) \<le> 57)"

definition digit_val :: "char \<Rightarrow> nat" where
  "digit_val c = of_char c - 48"

definition dec_value :: "string \<Rightarrow> nat" where
  "dec_value ds = foldl (\<lambda>acc c. 10 * acc + digit_val c) 0 ds"

definition to_string_arg :: "string option \<Rightarrow> string" where
  "to_string_arg arg = (case arg of None \<Rightarrow> ''undefined'' | Some s \<Rightarrow> s)"

definition is_sign :: "char \<Rightarrow> bool" where
  "is_sign c = (c = CHR ''+'' \<or> c = CHR ''-'')"

definition sign_negative :: "string \<Rightarrow> bool" where
  "sign_negative S = (case S of [] \<Rightarrow> False | c # _ \<Rightarrow> c = CHR ''-'')"

definition strip_sign :: "string \<Rightarrow> string" where
  "strip_sign S = (case S of [] \<Rightarrow> [] | c # cs \<Rightarrow> if is_sign c then cs else c # cs)"

definition parseInt10 :: "string option \<Rightarrow> jsnum" where
  "parseInt10 arg =
     (let inputString = to_string_arg arg;
          S = dropWhile is_space inputString;
          Z = takeWhile is_digit (strip_sign S)
      in if Z = [] then NaN
         else if sign_negative S then negate (to_number (dec_value Z))
         else to_number (dec_value Z))"

text \<open>\<^verbatim>\<open>a || b\<close> on a number \<open>a\<close>: NaN and zero are falsy.\<close>

definition truthy_num :: "jsnum \<Rightarrow> bool" where
  "truthy_num x = (x \<noteq> NaN \<and> x \<noteq> Num 0)"

definition or_num :: "jsnum \<Rightarrow> jsnum \<Rightarrow> jsnum" where
  "or_num a b = (if truthy_num a then a else b)"

subsection \<open>Property reads and array tests\<close>

text \<open>
  \<^verbatim>\<open>v.k\<close> throws a TypeError on \<^verbatim>\<open>null\<close> and \<^verbatim>\<open>undefined\<close>. On an object it is the
  own property or \<^verbatim>\<open>undefined\<close>; the handlers read \<^verbatim>\<open>title\<close>, \<^verbatim>\<open>rendered\<close>, \<^verbatim>\<open>id\<close> and
  \<^verbatim>\<open>name\<close>, none of which is inherited by a JSON value, so primitives and arrays give
  \<^verbatim>\<open>undefined\<close>.
\<close>

fun get_prop :: "jsval \<Rightarrow> string \<Rightarrow> js_error + jsval" where
  "get_prop JUndefined k = Inl (TypeError k)"
| "get_prop JNull k = Inl (TypeError k)"
| "get_prop (JObj kvs) k = Inr (case map_of kvs k of None \<Rightarrow> JUndefined | Some v \<Rightarrow> v)"
| "get_prop _ k = Inr JUndefined"

fun isArray :: "jsval \<Rightarrow> bool" where
  "isArray (JArr _) = True"
| "isArray _ = False"

text \<open>\<^verbatim>\<open>!Array.isArray(d) || d.length === 0\<close>\<close>

fun not_array_or_empty :: "jsval \<Rightarrow> bool" where
  "not_array_or_empty (JArr xs) = (xs = [])"
| "not_array_or_empty _ = True"

text \<open>\<^verbatim>\<open>d[0]\<close> on the array \<open>d\<close>; \<^verbatim>\<open>undefined\<close> when there is no such element.\<close>

fun index0 :: "jsval \<Rightarrow> jsval" where
  "index0 (JArr (x # _)) = x"
| "index0 _ = JUndefined"

text \<open>
  An object literal evaluates its properties in order; a later property with the key
  of an earlier one replaces its value in place. The spread \<^verbatim>\<open>...obj\<close> sets the
  properties of \<open>obj\<close> in their order.
\<close>

definition set_prop :: "string \<Rightarrow> jsval \<Rightarrow> jsobject \<Rightarrow> jsobject" where
  "set_prop k v obj =
     (if k \<in> fst ` set obj then map (\<lambda>(k', v'). if k' = k then (k', v) else (k', v')) obj
      else obj @ [(k, v)])"

definition spread :: "jsobject \<Rightarrow> jsobject \<Rightarrow> jsobject" where
  "spread src obj = foldl (\<lambda>acc (k, v). set_prop k v acc) obj src"

definition object_literal :: "(jsobject \<Rightarrow> jsobject) list \<Rightarrow> jsobject" where
  "object_literal parts = foldl (\<lambda>acc f. f acc) [] parts"

section \<open>The upstream API client\<close>

text \<open>
  \<^verbatim>\<open>wpApi.get(path, {params})\<close> issues one GET and resolves with the parsed body and the
  response headers, or rejects. A \<open>request\<close> is the pair of arguments of the call: the
  path and the \<^verbatim>\<open>params\<close> object as the handler writes it. The upstream system is a
  function from these arguments to the outcome of the call (no handler makes the same
  call twice); every call is assumed to settle. The calls made are kept in a log, in
  their order. Console output is not modelled.
\<close>

record request =
  path :: string
  params :: jsobject

record response =
  data :: jsval
  headers :: "string \<Rightarrow> string option"

type_synonym upstream = "request \<Rightarrow> js_error + response"

definition wpApi_get ::
  "upstream \<Rightarrow> request \<Rightarrow> request list \<Rightarrow> (js_error + response) \<times> request list" where
  "wpApi_get api req log = (api req, log @ [req])"

text \<open>
  axios builds the query string from the \<^verbatim>\<open>params\<close> object and leaves out every parameter
  whose value is \<^verbatim>\<open>null\<close> or \<^verbatim>\<open>undefined\<close>: \<open>sent_params\<close> are the parameters that are on
  the wire. The handlers write numbers, strings and booleans, which are all sent; the
  one value taken from a payload is \<^verbatim>\<open>categories: category.id\<close> of the archive handler.
\<close>

fun omitted :: "jsval \<Rightarrow> bool" where
  "omitted JNull = True"
| "omitted JUndefined = True"
| "omitted _ = False"

definition sent_params :: "jsobject \<Rightarrow> jsobject" where
  "sent_params ps = filter (\<lambda>(k, v). \<not> omitted v) ps"

text \<open>
  \<^verbatim>\<open>await Promise.all([a, b])\<close>: both operations have been started when it is called; it
  throws when one of them rejects. Which reason it throws when both reject depends on
  timing and is only logged; the model takes the first in array order.
\<close>

definition promise_all2 :: "js_error + 'a \<Rightarrow> js_error + 'b \<Rightarrow> js_error + 'a \<times> 'b" where
  "promise_all2 a b =
     (case a of
        Inl e \<Rightarrow> Inl e
      | Inr x \<Rightarrow> (case b of Inl e \<Rightarrow> Inl e | Inr y \<Rightarrow> Inr (x, y)))"

section \<open>The sidebar\<close>

definition categories_request :: request where
  "categories_request =
     \<lparr>path = ''/categories'',
      params = [(''per_page'', JNum (Num 20)), (''hide_empty'', JBool True)]\<rparr>"

definition recent_posts_request :: request where
  "recent_posts_request = \<lparr>path = ''/posts'', params = [(''per_page'', JNum (Num 5))]\<rparr>"

definition empty_sidebar :: jsobject where
  "empty_sidebar = [(''categories'', JArr []), (''recentPosts'', JArr [])]"

text \<open>
  \<^verbatim>\<open>getSidebarData\<close>: the \<^verbatim>\<open>try\<close> block, then the function with its \<^verbatim>\<open>catch\<close>. The result
  type keeps the error alternative of an async function, so that not raising is a
  property of the code and not of the type.
\<close>

definition getSidebarData_try ::
  "upstream \<Rightarrow> request list \<Rightarrow> (js_error + jsobject) \<times> request list" where
  "getSidebarData_try api log =
     (let (categoriesP, log1) = wpApi_get api categories_request log;
          (recentPostsP, log2) = wpApi_get api recent_posts_request log1
      in (case promise_all2 categoriesP recentPostsP of
            Inl e \<Rightarrow> Inl e
          | Inr (categoriesRes, recentPostsRes) \<Rightarrow>
              Inr [(''categories'', data categoriesRes),
                   (''recentPosts'', data recentPostsRes)],
          log2))"

definition getSidebarData ::
  "upstream \<Rightarrow> request list \<Rightarrow> (js_error + jsobject) \<times> request list" where
  "getSidebarData api log =
     (case getSidebarData_try api log of
        (Inl error, log') \<Rightarrow> (Inr empty_sidebar, log')
      | (Inr sidebar, log') \<Rightarrow> (Inr sidebar, log'))"

section \<open>The route handlers\<close>

text \<open>
  \<^verbatim>\<open>res.status(c).render(view, bag)\<close>; without \<^verbatim>\<open>status\<close> the response has status 200.
  The renderer is outside the program: a handler's result is the status, the view's
  name and the data bag, together with the log of the upstream requests it made.
\<close>

record rendered =
  status :: nat
  view :: string
  bag :: jsobject

definition render :: "nat \<Rightarrow> string \<Rightarrow> jsobject \<Rightarrow> rendered" where
  "render c v b = \<lparr>status = c, view = v, bag = b\<rparr>"

definition page_of :: "string option \<Rightarrow> jsnum" where
  "page_of s = or_num (parseInt10 s) (Num 1)"

subsection \<open>Home page and its pages: \<^verbatim>\<open>/\<close> and \<^verbatim>\<open>/page/:pageNumber\<close>\<close>

definition posts_request :: "jsnum \<Rightarrow> request" where
  "posts_request currentPage =
     \<lparr>path = ''/posts'',
      params = [(''per_page'', JNum (Num 10)), (''page'', JNum currentPage)]\<rparr>"

definition home_try ::
  "upstream \<Rightarrow> string option \<Rightarrow> (js_error + rendered) \<times> request list" where
  "home_try api pageNumber =
     (let currentPage = page_of pageNumber;
          (postsP, log1) = wpApi_get api (posts_request currentPage) [];
          (sidebarP, log2) = getSidebarData api log1
      in (case promise_all2 postsP sidebarP of
            Inl e \<Rightarrow> Inl e
          | Inr (postsRes, sidebarData) \<Rightarrow>
              let totalPages = page_of (headers postsRes ''x-wp-totalpages'')
              in if \<not> isArray (data postsRes)
                 then Inl (Error ''Invalid post data structure received from API.'')
                 else Inr (render 200 ''index''
                        (object_literal
                           [set_prop ''posts'' (data postsRes),
                            set_prop ''title'' (JStr ''Modern Headless Blog''),
                            spread sidebarData,
                            set_prop ''currentPage'' (JNum currentPage),
                            set_prop ''totalPages'' (JNum totalPages)])),
          log2))"

definition home_error :: rendered where
  "home_error =
     render 500 ''error''
       [(''message'', JStr ''Could not fetch posts. Please check the API connection.''),
        (''title'', JStr ''Error'')]"

definition home_route :: "upstream \<Rightarrow> string option \<Rightarrow> rendered \<times> request list" where
  "home_route api pageNumber =
     (case home_try api pageNumber of
        (Inl error, log) \<Rightarrow> (home_error, log)
      | (Inr page, log) \<Rightarrow> (page, log))"

subsection \<open>Single post: \<^verbatim>\<open>/post/:slug\<close>\<close>

definition post_request :: "string \<Rightarrow> request" where
  "post_request slug =
     \<lparr>path = ''/posts'', params = [(''slug'', JStr slug), (''_embed'', JBool True)]\<rparr>"

definition post_not_found :: "jsobject \<Rightarrow> rendered" where
  "post_not_found sidebarData =
     render 404 ''error''
       (object_literal
          [set_prop ''message'' (JStr ''The post you were looking for could not be found.''),
           set_prop ''title'' (JStr ''Post Not Found''),
           spread sidebarData])"

definition post_try ::
  "upstream \<Rightarrow> string \<Rightarrow> (js_error + rendered) \<times> request list" where
  "post_try api slug =
     (let (postP, log1) = wpApi_get api (post_request slug) [];
          (sidebarP, log2) = getSidebarData api log1
      in (case promise_all2 postP sidebarP of
            Inl e \<Rightarrow> Inl e
          | Inr (postRes, sidebarData) \<Rightarrow>
              if not_array_or_empty (data postRes) then Inr (post_not_found sidebarData)
              else
                (case get_prop (index0 (data postRes)) ''title'' of
                   Inl e \<Rightarrow> Inl e
                 | Inr t \<Rightarrow>
                     (case get_prop t ''rendered'' of
                        Inl e \<Rightarrow> Inl e
                      | Inr r \<Rightarrow>
                          Inr (render 200 ''single-post''
                                 (object_literal
                                    [set_prop ''post'' (index0 (data postRes)),
                                     set_prop ''title'' r,
                                     spread sidebarData])))),
          log2))"

definition post_error :: rendered where
  "post_error =
     render 500 ''error''
       [(''message'', JStr ''Could not fetch the post. Please check the API connection.''),
        (''title'', JStr ''Error'')]"

definition post_route :: "upstream \<Rightarrow> string \<Rightarrow> rendered \<times> request list" where
  "post_route api slug =
     (case post_try api slug of
        (Inl error, log) \<Rightarrow> (post_error, log)
      | (Inr page, log) \<Rightarrow> (page, log))"

subsection \<open>Category archive: \<^verbatim>\<open>/category/:slug\<close> and \<^verbatim>\<open>/category/:slug/page/:pageNumber\<close>\<close>

text \<open>
  The title is the template literal \<^verbatim>\<open>`Category: ${category.name}`\<close>, which converts the
  name to a string. The conversion of an arbitrary JSON value (number formatting,
  coercion of objects, which can throw) is a parameter \<open>toStr\<close> of the handler; what is
  proved holds for every conversion.
\<close>

definition category_request :: "string \<Rightarrow> request" where
  "category_request slug = \<lparr>path = ''/categories'', params = [(''slug'', JStr slug)]\<rparr>"

definition category_posts_request :: "jsval \<Rightarrow> jsnum \<Rightarrow> request" where
  "category_posts_request cid currentPage =
     \<lparr>path = ''/posts'',
      params = [(''categories'', cid), (''per_page'', JNum (Num 10)),
                (''page'', JNum currentPage)]\<rparr>"

definition category_not_found :: "jsobject \<Rightarrow> rendered" where
  "category_not_found sidebarData =
     render 404 ''error''
       (object_literal
          [set_prop ''message''
             (JStr ''The category you were looking for could not be found.''),
           set_prop ''title'' (JStr ''Category Not Found''),
           spread sidebarData])"

definition archive_page ::
  "jsval \<Rightarrow> jsval \<Rightarrow> string \<Rightarrow> jsobject \<Rightarrow> jsnum \<Rightarrow> jsnum \<Rightarrow> rendered" where
  "archive_page posts category name sidebarData currentPage totalPages =
     render 200 ''category-archive''
       (object_literal
          [set_prop ''posts'' posts,
           set_prop ''category'' category,
           set_prop ''title'' (JStr (''Category: '' @ name)),
           spread sidebarData,
           set_prop ''currentPage'' (JNum currentPage),
           set_prop ''totalPages'' (JNum totalPages)])"

text \<open>
  The \<^verbatim>\<open>try\<close> block is in two parts: \<open>archive_fetch_posts\<close> is what follows the
  not-found test, from \<^verbatim>\<open>const category = categoryRes.data[0]\<close> on.
\<close>

definition archive_fetch_posts ::
  "(jsval \<Rightarrow> js_error + string) \<Rightarrow> upstream \<Rightarrow> jsobject \<Rightarrow> jsval \<Rightarrow> jsnum \<Rightarrow> request list \<Rightarrow>
     (js_error + rendered) \<times> request list" where
  "archive_fetch_posts toStr api sidebarData category currentPage log =
     (case get_prop category ''id'' of
        Inl e \<Rightarrow> (Inl e, log)
      | Inr cid \<Rightarrow>
          let (postsP, log3) = wpApi_get api (category_posts_request cid currentPage) log
          in (case postsP of
                Inl e \<Rightarrow> Inl e
              | Inr postsRes \<Rightarrow>
                  let totalPages = page_of (headers postsRes ''x-wp-totalpages'')
                  in (case get_prop category ''name'' of
                        Inl e \<Rightarrow> Inl e
                      | Inr n \<Rightarrow>
                          (case toStr n of
                             Inl e \<Rightarrow> Inl e
                           | Inr name \<Rightarrow>
                               Inr (archive_page (data postsRes) category name sidebarData
                                      currentPage totalPages))),
              log3))"

definition archive_try ::
  "(jsval \<Rightarrow> js_error + string) \<Rightarrow> upstream \<Rightarrow> string \<Rightarrow> string option \<Rightarrow>
     (js_error + rendered) \<times> request list" where
  "archive_try toStr api slug pageNumber =
     (let currentPage = page_of pageNumber;
          (sidebarP, log1) = getSidebarData api []
      in (case sidebarP of
            Inl e \<Rightarrow> (Inl e, log1)
          | Inr sidebarData \<Rightarrow>
              let (categoryP, log2) = wpApi_get api (category_request slug) log1
              in (case categoryP of
                    Inl e \<Rightarrow> (Inl e, log2)
                  | Inr categoryRes \<Rightarrow>
                      if not_array_or_empty (data categoryRes)
                      then (Inr (category_not_found sidebarData), log2)
                      else archive_fetch_posts toStr api sidebarData
                             (index0 (data categoryRes)) currentPage log2)))"

definition archive_error :: rendered where
  "archive_error =
     render 500 ''error''
       [(''message'', JStr ''Could not fetch posts for this category.''),
        (''title'', JStr ''Error'')]"

definition archive_route ::
  "(jsval \<Rightarrow> js_error + string) \<Rightarrow> upstream \<Rightarrow> string \<Rightarrow> string option \<Rightarrow>
     rendered \<times> request list" where
  "archive_route toStr api slug pageNumber =
     (case archive_try toStr api slug pageNumber of
        (Inl error, log) \<Rightarrow> (archive_error, log)
      | (Inr page, log) \<Rightarrow> (page, log))"

section \<open>Notions used in the statements\<close>

text \<open>
  The sign and the digits that \<^verbatim>\<open>parseInt\<close> reads from its argument: the longest run of
  decimal digits after the leading white space and one optional sign, and whether that
  sign is a minus.
\<close>

definition leading_digits :: "string option \<Rightarrow> string" where
  "leading_digits arg =
     takeWhile is_digit (strip_sign (dropWhile is_space (to_string_arg arg)))"

definition leading_minus :: "string option \<Rightarrow> bool" where
  "leading_minus arg = sign_negative (dropWhile is_space (to_string_arg arg))"

definition positive_integer :: "jsnum \<Rightarrow> bool" where
  "positive_integer x = (case x of Num k \<Rightarrow> 1 \<le> k | _ \<Rightarrow> False)"

section \<open>Sample upstream systems\<close>

text \<open>
  Concrete upstream systems on which the handlers are run below: one category
  (\<^verbatim>\<open>news\<close>, identifier 7) and one post (\<^verbatim>\<open>hello\<close>).
\<close>

definition news :: jsval where
  "news = JObj [(''id'', JNum (Num 7)), (''slug'', JStr ''news''), (''name'', JStr ''News'')]"

definition hello :: jsval where
  "hello =
     JObj [(''id'', JNum (Num 1)), (''slug'', JStr ''hello''),
           (''title'', JObj [(''rendered'', JStr ''Hello world'')])]"

definition reply :: "jsval \<Rightarrow> string option \<Rightarrow> response" where
  "reply d pages =
     \<lparr>data = d, headers = (\<lambda>k. if k = ''x-wp-totalpages'' then pages else None)\<rparr>"

text \<open>A healthy upstream: lookups by slug find \<^verbatim>\<open>news\<close> and \<^verbatim>\<open>hello\<close>, lists have two pages.\<close>

definition blog_api :: upstream where
  "blog_api req =
     (if path req = ''/categories'' then
        (case map_of (params req) ''slug'' of
           None \<Rightarrow> Inr (reply (JArr [news]) None)
         | Some s \<Rightarrow> Inr (reply (if s = JStr ''news'' then JArr [news] else JArr []) None))
      else if path req = ''/posts'' then
        (case map_of (params req) ''slug'' of
           None \<Rightarrow> Inr (reply (JArr [hello]) (Some ''2''))
         | Some s \<Rightarrow> Inr (reply (if s = JStr ''hello'' then JArr [hello] else JArr []) None))
      else Inl (AxiosError ''Request failed with status code 404''))"

text \<open>An upstream that is down, and one whose post lists alone fail.\<close>

definition upstream_down :: upstream where
  "upstream_down req = Inl (AxiosError ''connect ECONNREFUSED'')"

definition posts_down_api :: upstream where
  "posts_down_api req =
     (if path req = ''/posts'' then Inl (AxiosError ''Request failed with status code 500'')
      else blog_api req)"

text \<open>An upstream whose posts filtered by category fail, everything else being healthy.\<close>

definition category_posts_down_api :: upstream where
  "category_posts_down_api req =
     (if map_of (params req) ''categories'' \<noteq> None
      then Inl (AxiosError ''Request failed with status code 500'')
      else blog_api req)"

text \<open>An upstream that answers every request with status 200 and a JSON object.\<close>

definition malformed_api :: upstream where
  "malformed_api req = Inr (reply (JObj [(''code'', JStr ''rest_no_route'')]) None)"

text \<open>A healthy upstream, except that its posts by category are a JSON object.\<close>

definition malformed_posts_api :: upstream where
  "malformed_posts_api req =
     (if map_of (params req) ''categories'' \<noteq> None
      then Inr (reply (JObj [(''code'', JStr ''rest_error'')]) None)
      else blog_api req)"

text \<open>An upstream that reports a total page count of \<^verbatim>\<open>-2\<close>.\<close>

definition negative_total_api :: upstream where
  "negative_total_api req = Inr (reply (JArr []) (Some ''-2''))"

text \<open>The string conversion of the template literal, on strings.\<close>

definition string_only :: "jsval \<Rightarrow> js_error + string" where
  "string_only v = (case v of JStr s \<Rightarrow> Inr s | _ \<Rightarrow> Inl (TypeError ''name''))"

section \<open>Numbers read by \<^verbatim>\<open>parseInt\<close>\<close>

lemma bit_length_lower: "0 < n \<Longrightarrow> 2 ^ (bit_length n - 1) \<le> n"
proof (induction n rule: bit_length.induct)
  case (1 n)
  show ?case
  proof (cases "n div 2 = 0")
    case True
    with "1.prems" have "n = 1" by (simp add: div_eq_0_iff) 
    then show ?thesis by (simp add: bit_length.simps [of "Suc 0"] bit_length.simps [of 0])
  next
    case False
    then have ih: "2 ^ (bit_length (n div 2) - 1) \<le> n div 2"
      using "1.IH" "1.prems" by simp
    have pos: "0 < bit_length (n div 2)"
      using False by (simp add: bit_length.simps [of "n div 2"])
    have "bit_length n - 1 = Suc (bit_length (n div 2) - 1)"
      using "1.prems" pos by (simp add: bit_length.simps [of n])
    then show ?thesis using ih by simp
  qed
qed

lemma bit_length_upper: "n < 2 ^ bit_length n"
proof (induction n rule: bit_length.induct)
  case (1 n)
  show ?case
  proof (cases "n = 0")
    case True
    then show ?thesis by simp
  next
    case False
    then have "n div 2 < 2 ^ bit_length (n div 2)" using "1.IH" by simp
    then have "n < 2 * 2 ^ bit_length (n div 2)" by linarith
    then show ?thesis using False by (simp add: bit_length.simps [of n])
  qed
qed

lemma to_number_exact: "n < 2 ^ 53 \<Longrightarrow> to_number n = Num (int n)"
  by (simp add: to_number_def)

lemma to_number_pos:
  assumes "0 < n"
  shows "to_number n = PosInf \<or> (\<exists>k. 0 < k \<and> to_number n = Num k)"
proof (cases "n < 2 ^ 53")
  case True
  then show ?thesis using assms by (simp add: to_number_def)
next
  case False
  define e where "e = bit_length n - 53"
  define q where "q = n div 2 ^ e"
  define r where "r = n mod 2 ^ e"
  define q' where "q' = (if 2 ^ (e - 1) < r \<or> (r = 2 ^ (e - 1) \<and> odd q) then q + 1 else q)"
  have "(2::nat) ^ e \<le> 2 ^ (bit_length n - 1)"
    unfolding e_def by (rule power_increasing) simp_all
  also have "\<dots> \<le> n" using assms by (rule bit_length_lower)
  finally have "0 < q" unfolding q_def by (simp add: div_greater_zero_iff)
  then have "0 < q'" unfolding q'_def by simp
  then have "0 < int (q' * 2 ^ e)" by simp
  moreover have "to_number n = (if 2 ^ 1024 \<le> q' * 2 ^ e then PosInf else Num (int (q' * 2 ^ e)))"
    using False unfolding to_number_def Let_def e_def q_def r_def q'_def by simp
  ultimately show ?thesis by auto
qed

lemma to_number_finite:
  assumes "n < 2 ^ 1024 - 2 ^ 970"
  shows "\<exists>k. to_number n = Num k"
proof (cases "n < 2 ^ 53")
  case True
  then show ?thesis by (simp add: to_number_def)
next
  case False
  define e where "e = bit_length n - 53"
  define q where "q = n div 2 ^ e"
  define r where "r = n mod 2 ^ e"
  define q' where "q' = (if 2 ^ (e - 1) < r \<or> (r = 2 ^ (e - 1) \<and> odd q) then q + 1 else q)"
  have n_eq: "n = q * 2 ^ e + r" unfolding q_def r_def by (rule div_mult_mod_eq [symmetric])
  have big: "(2::nat) ^ 53 \<le> n" using False by simp
  have "(2::nat) ^ 53 < 2 ^ bit_length n"
    using big bit_length_upper [of n] by linarith
  then have bl: "53 < bit_length n" by (rule power_less_imp_less_exp [rotated]) simp
  then have e_pos: "0 < e" and bl_eq: "bit_length n = e + 53" unfolding e_def by simp_all
  have "n < 2 ^ (e + 53)" using bit_length_upper [of n] bl_eq by simp
  then have "n < 2 ^ 53 * 2 ^ e" by (simp add: power_add mult.commute)
  then have q_lt: "q < 2 ^ 53" unfolding q_def by (simp add: less_mult_imp_div_less)
  have "(2::nat) ^ (bit_length n - 1) \<le> n" using big by (intro bit_length_lower) simp
  also have "n < 2 ^ 1024" using assms by simp
  finally have "(2::nat) ^ (bit_length n - 1) < 2 ^ 1024" .
  then have "bit_length n - 1 < 1024" by (rule power_less_imp_less_exp [rotated]) simp
  then have e_le: "e \<le> 971" using bl_eq by simp
  have "q' * 2 ^ e < 2 ^ 1024"
  proof (cases "q' < 2 ^ 53")
    case True
    then have "q' * 2 ^ e < 2 ^ 53 * 2 ^ e" by simp
    also have "(2::nat) ^ 53 * 2 ^ e \<le> 2 ^ 53 * 2 ^ 971"
      using e_le by (intro mult_le_mono2 power_increasing) simp_all
    also have "(2::nat) ^ 53 * 2 ^ 971 = 2 ^ 1024" by simp
    finally show ?thesis .
  next
    case not_lt: False
    then have q'_eq: "q' = 2 ^ 53" and q_eq: "q = 2 ^ 53 - 1"
      and half: "2 ^ (e - 1) \<le> r"
      using q_lt unfolding q'_def by (auto split: if_splits)
    show ?thesis
    proof (cases "e = 971")
      case True
      have "n = (2 ^ 53 - 1) * 2 ^ 971 + r" using n_eq q_eq True by simp
      moreover have "(2::nat) ^ 970 \<le> r" using half True by simp
      ultimately have "(2 ^ 53 - 1) * 2 ^ 971 + 2 ^ 970 \<le> n" by linarith
      then have False using assms by simp
      then show ?thesis ..
    next
      case False
      then have "e \<le> 970" using e_le by simp
      have "q' * 2 ^ e = 2 ^ 53 * 2 ^ e" by (simp only: q'_eq)
      also have "(2::nat) ^ 53 * 2 ^ e \<le> 2 ^ 53 * 2 ^ 970"
        using \<open>e \<le> 970\<close> by (intro mult_le_mono2 power_increasing) simp_all
      also have "(2::nat) ^ 53 * 2 ^ 970 < 2 ^ 1024" by simp
      finally show ?thesis .
    qed
  qed
  moreover have "to_number n = (if 2 ^ 1024 \<le> q' * 2 ^ e then PosInf else Num (int (q' * 2 ^ e)))"
    using False unfolding to_number_def Let_def e_def q_def r_def q'_def by simp
  ultimately show ?thesis by simp
qed

lemma parseInt10_parts:
  "parseInt10 arg =
     (if leading_digits arg = [] then NaN
      else if leading_minus arg then negate (to_number (dec_value (leading_digits arg)))
      else to_number (dec_value (leading_digits arg)))"
  by (simp add: parseInt10_def leading_digits_def leading_minus_def Let_def)

lemma leading_digits_absent: "leading_digits None = []"
  by (simp add: leading_digits_def to_string_arg_def is_space_def strip_sign_def is_sign_def
      is_digit_def)

lemma leading_digits_are_digits: "c \<in> set (leading_digits arg) \<Longrightarrow> is_digit c"
  unfolding leading_digits_def by (rule set_takeWhileD [THEN conjunct2])

lemma foldl_dec_zero:
  "\<forall>c\<in>set ds. c = CHR ''0'' \<Longrightarrow> foldl (\<lambda>acc c. 10 * acc + digit_val c) 0 ds = 0"
  by (induction ds rule: rev_induct) (simp_all add: digit_val_def)

lemma dec_value_zeros: "\<forall>c\<in>set ds. c = CHR ''0'' \<Longrightarrow> dec_value ds = 0"
  by (simp add: dec_value_def foldl_dec_zero)

lemma digit_val_less: "is_digit c \<Longrightarrow> digit_val c < 10"
  by (auto simp: is_digit_def digit_val_def)

lemma dec_value_snoc: "dec_value (ds @ [c]) = 10 * dec_value ds + digit_val c"
  by (simp add: dec_value_def)

lemma dec_value_bound: "\<forall>c\<in>set ds. is_digit c \<Longrightarrow> dec_value ds < 10 ^ length ds"
proof (induction ds rule: rev_induct)
  case Nil
  then show ?case by (simp add: dec_value_def)
next
  case (snoc c ds)
  then have "dec_value ds < 10 ^ length ds" and "digit_val c < 10"
    by (simp_all add: digit_val_less)
  then have "10 * dec_value ds + digit_val c < 10 * 10 ^ length ds" by linarith
  then show ?case by (simp add: dec_value_snoc)
qed

lemma truthy_page_of: "truthy_num (page_of arg)"
  by (simp add: page_of_def or_num_def truthy_num_def)

lemma page_of_default:
  assumes "\<forall>c\<in>set (leading_digits arg). c = CHR ''0''"
  shows "page_of arg = Num 1"
proof -
  have "parseInt10 arg = NaN \<or> parseInt10 arg = Num 0"
    using dec_value_zeros [OF assms]
    by (simp add: parseInt10_parts to_number_def)
  then show ?thesis by (auto simp: page_of_def or_num_def truthy_num_def)
qed

lemma page_of_positive:
  assumes "\<not> leading_minus arg"
  shows "page_of arg = PosInf \<or> (\<exists>k. 1 \<le> k \<and> page_of arg = Num k)"
proof (cases "leading_digits arg = [] \<or> dec_value (leading_digits arg) = 0")
  case True
  then have "parseInt10 arg = NaN \<or> parseInt10 arg = Num 0"
    using assms by (auto simp: parseInt10_parts to_number_def)
  then show ?thesis by (auto simp: page_of_def or_num_def truthy_num_def)
next
  case False
  then have p: "parseInt10 arg = to_number (dec_value (leading_digits arg))"
    using assms by (simp add: parseInt10_parts)
  from False have "0 < dec_value (leading_digits arg)" by simp
  from to_number_pos [OF this] show ?thesis
    unfolding p [symmetric] by (auto simp: page_of_def or_num_def truthy_num_def)
qed

lemma page_of_finite:
  assumes "length (leading_digits arg) \<le> 308"
  shows "\<exists>k. page_of arg = Num k"
proof -
  have "dec_value (leading_digits arg) < 10 ^ length (leading_digits arg)"
    by (rule dec_value_bound) (simp add: leading_digits_are_digits)
  also have "(10::nat) ^ length (leading_digits arg) \<le> 10 ^ 308"
    using assms by (intro power_increasing) simp_all
  also have "(10::nat) ^ 308 < 2 ^ 1024 - 2 ^ 970" by simp
  finally obtain k where k: "to_number (dec_value (leading_digits arg)) = Num k"
    using to_number_finite by blast
  then have "\<exists>k. parseInt10 arg = Num k \<or> parseInt10 arg = NaN"
    by (simp add: parseInt10_parts)
  then show ?thesis by (auto simp: page_of_def or_num_def truthy_num_def)
qed

lemma not_space_sign_digit: "is_sign c \<or> is_digit c \<Longrightarrow> \<not> is_space c"
  by (auto simp: is_sign_def is_digit_def is_space_def)

lemma sign_not_digit: "is_digit c \<Longrightarrow> \<not> is_sign c"
  by (auto simp: is_sign_def is_digit_def)

lemma leading_parts:
  assumes ws: "\<forall>c\<in>set ws. is_space c"
    and sg: "sg = [] \<or> sg = ''+'' \<or> sg = ''-''"
    and ds: "ds \<noteq> []" "\<forall>c\<in>set ds. is_digit c"
    and rest: "rest = [] \<or> \<not> is_digit (hd rest)"
  shows "leading_digits (Some (ws @ sg @ ds @ rest)) = ds"
    and "leading_minus (Some (ws @ sg @ ds @ rest)) = (sg = ''-'')"
proof -
  obtain d ds' where d: "ds = d # ds'" "is_digit d" using ds by (cases ds) auto
  have tw: "takeWhile is_digit (ds @ rest) = ds"
    using ds(2) rest by (cases rest) (simp_all add: takeWhile_append2 [of ds is_digit] takeWhile_tail)
  have "\<not> is_space (hd (sg @ ds @ rest))" "sg @ ds @ rest \<noteq> []"
    using sg d by (auto simp: not_space_sign_digit is_sign_def)
  then have dw: "dropWhile is_space (ws @ sg @ ds @ rest) = sg @ ds @ rest"
    using ws by (cases "sg @ ds @ rest") (simp_all add: dropWhile_append2)
  have ss: "strip_sign (sg @ ds @ rest) = ds @ rest"
    using sg d sign_not_digit [OF d(2)] by (auto simp: strip_sign_def is_sign_def)
  have "leading_digits (Some (ws @ sg @ ds @ rest)) =
          takeWhile is_digit (strip_sign (sg @ ds @ rest))"
    by (simp only: leading_digits_def to_string_arg_def option.case dw)
  then show "leading_digits (Some (ws @ sg @ ds @ rest)) = ds"
    by (simp only: ss tw)
  have "leading_minus (Some (ws @ sg @ ds @ rest)) = sign_negative (sg @ ds @ rest)"
    by (simp only: leading_minus_def to_string_arg_def option.case dw)
  also have "\<dots> = (sg = ''-'')"
    using sg d by (auto simp: sign_negative_def is_digit_def)
  finally show "leading_minus (Some (ws @ sg @ ds @ rest)) = (sg = ''-'')" .
qed

section \<open>What each handler returns\<close>

lemma getSidebarData_shape:
  "\<exists>c r. getSidebarData api log =
     (Inr [(''categories'', c), (''recentPosts'', r)], log @ [categories_request, recent_posts_request])"
  by (auto simp: getSidebarData_def getSidebarData_try_def wpApi_get_def promise_all2_def
      empty_sidebar_def split: sum.splits prod.splits)

lemma getSidebarData_log:
  "snd (getSidebarData api log) = log @ [categories_request, recent_posts_request]"
  using getSidebarData_shape [of api log] by auto

lemma getSidebarData_any_log:
  "fst (getSidebarData api log) = fst (getSidebarData api [])"
  by (auto simp: getSidebarData_def getSidebarData_try_def wpApi_get_def promise_all2_def
      split: sum.splits prod.splits)

lemma getSidebarData_ok:
  "api categories_request = Inr c \<Longrightarrow> api recent_posts_request = Inr r \<Longrightarrow>
   fst (getSidebarData api log) = Inr [(''categories'', data c), (''recentPosts'', data r)]"
  by (simp add: getSidebarData_def getSidebarData_try_def wpApi_get_def promise_all2_def)

lemma getSidebarData_failed:
  "isl (api categories_request) \<or> isl (api recent_posts_request) \<Longrightarrow>
   fst (getSidebarData api log) = Inr empty_sidebar"
  by (auto simp: getSidebarData_def getSidebarData_try_def wpApi_get_def promise_all2_def
      split: sum.splits prod.splits)

lemma error_bag_with_sidebar:
  "object_literal [set_prop ''message'' m, set_prop ''title'' t,
     spread [(''categories'', c), (''recentPosts'', r)]] =
   [(''message'', m), (''title'', t), (''categories'', c), (''recentPosts'', r)]"
  by (simp add: object_literal_def set_prop_def spread_def)

lemma index_bag:
  "object_literal [set_prop ''posts'' p, set_prop ''title'' t,
     spread [(''categories'', c), (''recentPosts'', r)],
     set_prop ''currentPage'' cp, set_prop ''totalPages'' tp] =
   [(''posts'', p), (''title'', t), (''categories'', c), (''recentPosts'', r),
    (''currentPage'', cp), (''totalPages'', tp)]"
  by (simp add: object_literal_def set_prop_def spread_def)

lemma single_bag:
  "object_literal [set_prop ''post'' p, set_prop ''title'' t,
     spread [(''categories'', c), (''recentPosts'', r)]] =
   [(''post'', p), (''title'', t), (''categories'', c), (''recentPosts'', r)]"
  by (simp add: object_literal_def set_prop_def spread_def)

lemma archive_bag:
  "object_literal [set_prop ''posts'' p, set_prop ''category'' g, set_prop ''title'' t,
     spread [(''categories'', c), (''recentPosts'', r)],
     set_prop ''currentPage'' cp, set_prop ''totalPages'' tp] =
   [(''posts'', p), (''category'', g), (''title'', t), (''categories'', c), (''recentPosts'', r),
    (''currentPage'', cp), (''totalPages'', tp)]"
  by (simp add: object_literal_def set_prop_def spread_def)

lemma home_route_log:
  "snd (home_route api pn) = [posts_request (page_of pn), categories_request, recent_posts_request]"
  using getSidebarData_shape [of api "[posts_request (page_of pn)]"]
  by (auto simp: home_route_def home_try_def wpApi_get_def Let_def split: sum.splits prod.splits)

lemma home_route_failed:
  "api (posts_request (page_of pn)) = Inl e \<Longrightarrow> fst (home_route api pn) = home_error"
  using getSidebarData_shape [of api "[posts_request (page_of pn)]"]
  by (auto simp: home_route_def home_try_def wpApi_get_def promise_all2_def split: sum.splits prod.splits)

lemma home_route_invalid:
  "api (posts_request (page_of pn)) = Inr res \<Longrightarrow> \<not> isArray (data res) \<Longrightarrow> fst (home_route api pn) = home_error"
  using getSidebarData_shape [of api "[posts_request (page_of pn)]"]
  by (auto simp: home_route_def home_try_def wpApi_get_def promise_all2_def split: sum.splits prod.splits)

lemma home_route_ok:
  assumes "api (posts_request (page_of pn)) = Inr res" "isArray (data res)"
    and "fst (getSidebarData api []) = Inr [(''categories'', c), (''recentPosts'', r)]"
  shows "fst (home_route api pn) =
     render 200 ''index''
       [(''posts'', data res), (''title'', JStr ''Modern Headless Blog''),
        (''categories'', c), (''recentPosts'', r),
        (''currentPage'', JNum (page_of pn)),
        (''totalPages'', JNum (page_of (headers res ''x-wp-totalpages'')))]"
proof -
  have "fst (getSidebarData api [posts_request (page_of pn)]) =
          Inr [(''categories'', c), (''recentPosts'', r)]"
    using assms(3) getSidebarData_any_log by metis
  then show ?thesis
    using assms(1,2)
    by (auto simp: home_route_def home_try_def wpApi_get_def promise_all2_def Let_def index_bag
        split: sum.splits prod.splits)
qed

lemma post_route_failed:
  "api (post_request slug) = Inl e \<Longrightarrow> fst (post_route api slug) = post_error"
  using getSidebarData_shape [of api "[post_request slug]"]
  by (auto simp: post_route_def post_try_def wpApi_get_def promise_all2_def split: sum.splits prod.splits)

lemma post_route_not_found:
  assumes "api (post_request slug) = Inr res" "not_array_or_empty (data res)"
    and "fst (getSidebarData api []) = Inr [(''categories'', c), (''recentPosts'', r)]"
  shows "fst (post_route api slug) =
     render 404 ''error''
       [(''message'', JStr ''The post you were looking for could not be found.''),
        (''title'', JStr ''Post Not Found''), (''categories'', c), (''recentPosts'', r)]"
proof -
  have "fst (getSidebarData api [post_request slug]) =
          Inr [(''categories'', c), (''recentPosts'', r)]"
    using assms(3) getSidebarData_any_log by metis
  then show ?thesis
    using assms(1,2)
    by (auto simp: post_route_def post_try_def wpApi_get_def promise_all2_def Let_def
        post_not_found_def error_bag_with_sidebar
        split: sum.splits prod.splits)
qed

lemma post_route_found:
  assumes "api (post_request slug) = Inr res" "\<not> not_array_or_empty (data res)"
    and "fst (getSidebarData api []) = Inr [(''categories'', c), (''recentPosts'', r)]"
  shows "fst (post_route api slug) =
     (case get_prop (index0 (data res)) ''title'' of
        Inl e \<Rightarrow> post_error
      | Inr t \<Rightarrow> (case get_prop t ''rendered'' of
          Inl e \<Rightarrow> post_error
        | Inr rd \<Rightarrow> render 200 ''single-post''
            [(''post'', index0 (data res)), (''title'', rd), (''categories'', c), (''recentPosts'', r)]))"
proof -
  have "fst (getSidebarData api [post_request slug]) =
          Inr [(''categories'', c), (''recentPosts'', r)]"
    using assms(3) getSidebarData_any_log by metis
  then show ?thesis
    using assms(1,2)
    by (auto simp: post_route_def post_try_def wpApi_get_def promise_all2_def Let_def
        single_bag
        split: sum.splits prod.splits)
qed


lemma archive_route_lookup_failed:
  "api (category_request slug) = Inl e \<Longrightarrow>
   archive_route toStr api slug pn =
     (archive_error, [categories_request, recent_posts_request, category_request slug])"
  using getSidebarData_shape [of api "[]"]
  by (auto simp: archive_route_def archive_try_def wpApi_get_def Let_def
      split: sum.splits prod.splits)

lemma archive_route_not_found:
  assumes "api (category_request slug) = Inr res" "not_array_or_empty (data res)"
    and "fst (getSidebarData api []) = Inr [(''categories'', c), (''recentPosts'', r)]"
  shows "archive_route toStr api slug pn =
     (render 404 ''error''
       [(''message'', JStr ''The category you were looking for could not be found.''),
        (''title'', JStr ''Category Not Found''), (''categories'', c), (''recentPosts'', r)],
      [categories_request, recent_posts_request, category_request slug])"
  using assms getSidebarData_log [of api "[]"]
  by (cases "getSidebarData api []")
     (auto simp: archive_route_def archive_try_def wpApi_get_def Let_def
        category_not_found_def error_bag_with_sidebar
      split: sum.splits prod.splits)

lemma archive_route_found:
  assumes "api (category_request slug) = Inr res" "\<not> not_array_or_empty (data res)"
    and "fst (getSidebarData api []) = Inr sb"
  shows "archive_route toStr api slug pn =
     (case archive_fetch_posts toStr api sb (index0 (data res)) (page_of pn)
             [categories_request, recent_posts_request, category_request slug] of
        (Inl e, log) \<Rightarrow> (archive_error, log)
      | (Inr page, log) \<Rightarrow> (page, log))"
  using assms getSidebarData_log [of api "[]"]
  by (cases "getSidebarData api []")
     (auto simp: archive_route_def archive_try_def wpApi_get_def Let_def
      split: sum.splits prod.splits)

lemma archive_fetch_posts_null:
  "get_prop category ''id'' = Inl e \<Longrightarrow>
   archive_fetch_posts toStr api sb category cp log = (Inl e, log)"
  by (simp add: archive_fetch_posts_def)

lemma archive_fetch_posts_log:
  "get_prop category ''id'' = Inr cid \<Longrightarrow>
   snd (archive_fetch_posts toStr api sb category cp log) =
     log @ [category_posts_request cid cp]"
  by (simp add: archive_fetch_posts_def wpApi_get_def Let_def)

lemma archive_fetch_posts_failed:
  "get_prop category ''id'' = Inr cid \<Longrightarrow> api (category_posts_request cid cp) = Inl e \<Longrightarrow>
   fst (archive_fetch_posts toStr api sb category cp log) = Inl e"
  by (simp add: archive_fetch_posts_def wpApi_get_def Let_def)

lemma archive_fetch_posts_ok:
  "get_prop category ''id'' = Inr cid \<Longrightarrow> api (category_posts_request cid cp) = Inr res \<Longrightarrow>
   get_prop category ''name'' = Inr n \<Longrightarrow> toStr n = Inr name \<Longrightarrow>
   fst (archive_fetch_posts toStr api [(''categories'', c), (''recentPosts'', r)] category cp log) =
     Inr (render 200 ''category-archive''
       [(''posts'', data res), (''category'', category), (''title'', JStr (''Category: '' @ name)),
        (''categories'', c), (''recentPosts'', r),
        (''currentPage'', JNum cp),
        (''totalPages'', JNum (page_of (headers res ''x-wp-totalpages'')))])"
  by (simp add: archive_fetch_posts_def wpApi_get_def Let_def archive_page_def archive_bag)

lemma archive_fetch_posts_cases:
  "(\<exists>e. fst (archive_fetch_posts toStr api [(''categories'', c), (''recentPosts'', r)] category cp log) = Inl e) \<or>
   (\<exists>cid res name. get_prop category ''id'' = Inr cid \<and> api (category_posts_request cid cp) = Inr res \<and>
     fst (archive_fetch_posts toStr api [(''categories'', c), (''recentPosts'', r)] category cp log) =
     Inr (render 200 ''category-archive''
       [(''posts'', data res), (''category'', category), (''title'', JStr (''Category: '' @ name)),
        (''categories'', c), (''recentPosts'', r),
        (''currentPage'', JNum cp),
        (''totalPages'', JNum (page_of (headers res ''x-wp-totalpages'')))]))"
  by (auto simp: archive_fetch_posts_def wpApi_get_def Let_def archive_page_def archive_bag
      split: sum.splits)

lemma home_route_cases:
  "fst (home_route api pn) = home_error \<or>
   (\<exists>res c r. api (posts_request (page_of pn)) = Inr res \<and> isArray (data res) \<and>
      fst (getSidebarData api []) = Inr [(''categories'', c), (''recentPosts'', r)] \<and>
      fst (home_route api pn) =
        render 200 ''index''
          [(''posts'', data res), (''title'', JStr ''Modern Headless Blog''),
           (''categories'', c), (''recentPosts'', r),
           (''currentPage'', JNum (page_of pn)),
           (''totalPages'', JNum (page_of (headers res ''x-wp-totalpages'')))])"
proof (cases "api (posts_request (page_of pn))")
  case (Inl e)
  then show ?thesis by (simp add: home_route_failed)
next
  case (Inr res)
  obtain c r where sb: "fst (getSidebarData api []) = Inr [(''categories'', c), (''recentPosts'', r)]"
    using getSidebarData_shape [of api "[]"] by auto
  show ?thesis
  proof (cases "isArray (data res)")
    case True
    from home_route_ok [OF Inr True sb] Inr True sb show ?thesis by blast
  next
    case False
    with Inr show ?thesis by (simp add: home_route_invalid)
  qed
qed

lemma post_route_cases:
  "fst (post_route api slug) = post_error \<or>
   (\<exists>c r. fst (getSidebarData api []) = Inr [(''categories'', c), (''recentPosts'', r)] \<and>
      fst (post_route api slug) =
        render 404 ''error''
          [(''message'', JStr ''The post you were looking for could not be found.''),
           (''title'', JStr ''Post Not Found''), (''categories'', c), (''recentPosts'', r)]) \<or>
   (\<exists>p t c r. fst (getSidebarData api []) = Inr [(''categories'', c), (''recentPosts'', r)] \<and>
      fst (post_route api slug) =
        render 200 ''single-post''
          [(''post'', p), (''title'', t), (''categories'', c), (''recentPosts'', r)])"
proof (cases "api (post_request slug)")
  case (Inl e)
  then show ?thesis by (simp add: post_route_failed)
next
  case (Inr res)
  obtain c r where sb: "fst (getSidebarData api []) = Inr [(''categories'', c), (''recentPosts'', r)]"
    using getSidebarData_shape [of api "[]"] by auto
  show ?thesis
  proof (cases "not_array_or_empty (data res)")
    case True
    from post_route_not_found [OF Inr True sb] sb show ?thesis by blast
  next
    case False
    from post_route_found [OF Inr False sb] sb show ?thesis
      by (auto split: sum.splits)
  qed
qed

lemma archive_route_cases:
  "(fst (archive_route toStr api slug pn) = archive_error \<and>
     (snd (archive_route toStr api slug pn) =
        [categories_request, recent_posts_request, category_request slug] \<or>
      (\<exists>cid. snd (archive_route toStr api slug pn) =
        [categories_request, recent_posts_request, category_request slug,
         category_posts_request cid (page_of pn)]))) \<or>
   (\<exists>c r. fst (getSidebarData api []) = Inr [(''categories'', c), (''recentPosts'', r)] \<and>
      archive_route toStr api slug pn =
        (render 404 ''error''
           [(''message'', JStr ''The category you were looking for could not be found.''),
            (''title'', JStr ''Category Not Found''), (''categories'', c), (''recentPosts'', r)],
         [categories_request, recent_posts_request, category_request slug])) \<or>
   (\<exists>res cid g name c r.
      fst (getSidebarData api []) = Inr [(''categories'', c), (''recentPosts'', r)] \<and>
      api (category_posts_request cid (page_of pn)) = Inr res \<and>
      archive_route toStr api slug pn =
        (render 200 ''category-archive''
           [(''posts'', data res), (''category'', g), (''title'', JStr (''Category: '' @ name)),
            (''categories'', c), (''recentPosts'', r),
            (''currentPage'', JNum (page_of pn)),
            (''totalPages'', JNum (page_of (headers res ''x-wp-totalpages'')))],
         [categories_request, recent_posts_request, category_request slug,
          category_posts_request cid (page_of pn)]))"
proof (cases "api (category_request slug)")
  case (Inl e)
  then show ?thesis by (simp add: archive_route_lookup_failed)
next
  case (Inr res)
  obtain c r where sb: "fst (getSidebarData api []) = Inr [(''categories'', c), (''recentPosts'', r)]"
    using getSidebarData_shape [of api "[]"] by auto
  show ?thesis
  proof (cases "not_array_or_empty (data res)")
    case True
    from archive_route_not_found [OF Inr True sb] sb show ?thesis by blast
  next
    case False
    note found = archive_route_found [OF Inr False sb, of toStr pn]
    let ?L = "[categories_request, recent_posts_request, category_request slug]"
    let ?g = "index0 (data res)"
    show ?thesis
    proof (cases "get_prop ?g ''id''")
      case (Inl e)
      then show ?thesis using found by (simp add: archive_fetch_posts_null)
    next
      case cid: (Inr cid)
      have log: "snd (archive_fetch_posts toStr api [(''categories'', c), (''recentPosts'', r)] ?g (page_of pn) ?L)
          = ?L @ [category_posts_request cid (page_of pn)]"
        by (rule archive_fetch_posts_log [OF cid])
      from archive_fetch_posts_cases [of toStr api c r ?g "page_of pn" ?L]
      show ?thesis
      proof (elim disjE exE conjE)
        fix e
        assume "fst (archive_fetch_posts toStr api [(''categories'', c), (''recentPosts'', r)] ?g (page_of pn) ?L) = Inl e"
        then show ?thesis using found log
          by (cases "archive_fetch_posts toStr api [(''categories'', c), (''recentPosts'', r)] ?g (page_of pn) ?L") auto
      next
        fix cid' res' name
        assume a: "get_prop ?g ''id'' = Inr cid'"
          "api (category_posts_request cid' (page_of pn)) = Inr res'"
          "fst (archive_fetch_posts toStr api [(''categories'', c), (''recentPosts'', r)] ?g (page_of pn) ?L) =
            Inr (render 200 ''category-archive''
              [(''posts'', data res'), (''category'', ?g), (''title'', JStr (''Category: '' @ name)),
               (''categories'', c), (''recentPosts'', r),
               (''currentPage'', JNum (page_of pn)),
               (''totalPages'', JNum (page_of (headers res' ''x-wp-totalpages'')))])"
        then have "cid' = cid" using cid by simp
        with a found log sb show ?thesis
          by (cases "archive_fetch_posts toStr api [(''categories'', c), (''recentPosts'', r)] ?g (page_of pn) ?L") auto
      qed
    qed
  qed
qed

section \<open>Pages and pagination state of the two paginated routes\<close>

lemma home_route_currentPage:
  "map_of (bag (fst (home_route api pn))) ''currentPage'' =
     (if status (fst (home_route api pn)) = 200 then Some (JNum (page_of pn)) else None)"
  using home_route_cases [of api pn] by (auto simp: home_error_def render_def)

lemma home_route_totalPages:
  "status (fst (home_route api pn)) = 200 \<Longrightarrow>
   \<exists>res. api (posts_request (page_of pn)) = Inr res \<and>
     map_of (bag (fst (home_route api pn))) ''totalPages'' =
       Some (JNum (page_of (headers res ''x-wp-totalpages'')))"
  using home_route_cases [of api pn] by (auto simp: home_error_def render_def)

lemma home_route_no_pagination:
  "status (fst (home_route api pn)) \<noteq> 200 \<Longrightarrow>
   map_of (bag (fst (home_route api pn))) ''currentPage'' = None \<and>
   map_of (bag (fst (home_route api pn))) ''totalPages'' = None"
  using home_route_cases [of api pn] by (auto simp: home_error_def render_def)

lemma archive_route_currentPage:
  "map_of (bag (fst (archive_route toStr api slug pn))) ''currentPage'' =
     (if status (fst (archive_route toStr api slug pn)) = 200
      then Some (JNum (page_of pn)) else None)"
  using archive_route_cases [of toStr api slug pn] by (auto simp: archive_error_def render_def)

lemma archive_route_totalPages:
  "status (fst (archive_route toStr api slug pn)) = 200 \<Longrightarrow>
   \<exists>cid res. last (snd (archive_route toStr api slug pn)) = category_posts_request cid (page_of pn) \<and>
     api (category_posts_request cid (page_of pn)) = Inr res \<and>
     map_of (bag (fst (archive_route toStr api slug pn))) ''totalPages'' =
       Some (JNum (page_of (headers res ''x-wp-totalpages'')))"
  using archive_route_cases [of toStr api slug pn]
  by (elim disjE exE conjE) (auto simp: archive_error_def render_def)

lemma archive_route_no_pagination:
  "status (fst (archive_route toStr api slug pn)) \<noteq> 200 \<Longrightarrow>
   map_of (bag (fst (archive_route toStr api slug pn))) ''currentPage'' = None \<and>
   map_of (bag (fst (archive_route toStr api slug pn))) ''totalPages'' = None"
  using archive_route_cases [of toStr api slug pn] by (auto simp: archive_error_def render_def)

lemma archive_route_page_param:
  "category_posts_request cid p \<in> set (snd (archive_route toStr api slug pn)) \<Longrightarrow> p = page_of pn"
  using archive_route_cases [of toStr api slug pn]
  by (elim disjE exE conjE)
     (auto simp: category_posts_request_def categories_request_def recent_posts_request_def
        category_request_def)

lemma page_of_nonzero: "page_of s \<noteq> NaN \<and> page_of s \<noteq> Num 0"
  using truthy_page_of [of s] by (simp add: truthy_num_def)

lemma page_of_positive_integer:
  assumes "\<not> leading_minus s" "length (leading_digits s) \<le> 308"
  shows "positive_integer (page_of s)"
  using page_of_positive [OF assms(1)] page_of_finite [OF assms(2)]
  by (auto simp: positive_integer_def)

lemma page_of_prefix:
  assumes "\<forall>c\<in>set ws. is_space c"
    and "sg = [] \<or> sg = ''+'' \<or> sg = ''-''"
    and "ds \<noteq> []" "\<forall>c\<in>set ds. is_digit c"
    and "rest = [] \<or> \<not> is_digit (hd rest)"
    and "dec_value ds \<noteq> 0"
  shows "page_of (Some (ws @ sg @ ds @ rest)) =
     (if sg = ''-'' then negate (to_number (dec_value ds)) else to_number (dec_value ds))"
proof -
  note parts = leading_parts [OF assms(1-5)]
  have p: "parseInt10 (Some (ws @ sg @ ds @ rest)) =
     (if sg = ''-'' then negate (to_number (dec_value ds)) else to_number (dec_value ds))"
    unfolding parseInt10_parts parts using assms(3) by simp
  from assms(6) have "0 < dec_value ds" by simp
  from to_number_pos [OF this]
  have "truthy_num (to_number (dec_value ds))" "truthy_num (negate (to_number (dec_value ds)))"
    by (auto simp: truthy_num_def)
  then show ?thesis by (simp add: page_of_def p or_num_def)
qed

section \<open>The handlers on the sample upstream systems\<close>

lemma page_of_examples:
  "page_of None = Num 1"
  "page_of (Some ''abc'') = Num 1"
  "page_of (Some ''0'') = Num 1"
  "page_of (Some ''0abc'') = Num 1"
  "page_of (Some ''2'') = Num 2"
  "page_of (Some ''2abc'') = Num 2"
  "page_of (Some ''1.9'') = Num 1"
  "page_of (Some ''-3'') = Num (- 3)"
  "page_of (Some ''-2'') = Num (- 2)"
  by (simp_all add: page_of_def parseInt10_def to_string_arg_def is_space_def is_digit_def
      strip_sign_def is_sign_def sign_negative_def dec_value_def digit_val_def to_number_def
      or_num_def truthy_num_def)

lemma leading_examples:
  "leading_digits None = []"
  "leading_digits (Some ''abc'') = []"
  "leading_digits (Some ''0'') = ''0''"
  "leading_digits (Some ''0abc'') = ''0''"
  "leading_digits (Some ''2'') = ''2''"
  "leading_digits (Some ''-3'') = ''3''"
  "leading_digits (Some ''-2'') = ''2''"
  "leading_minus (Some ''-3'')"
  "leading_minus (Some ''-2'')"
  "\<not> leading_minus (Some ''2'')"
  "\<not> leading_minus None"
  by (simp_all add: leading_digits_def leading_minus_def to_string_arg_def is_space_def
      is_digit_def strip_sign_def is_sign_def sign_negative_def)

lemma blog_api_simps:
  "blog_api categories_request = Inr (reply (JArr [news]) None)"
  "blog_api recent_posts_request = Inr (reply (JArr [hello]) (Some ''2''))"
  "blog_api (posts_request p) = Inr (reply (JArr [hello]) (Some ''2''))"
  "blog_api (category_posts_request cid p) = Inr (reply (JArr [hello]) (Some ''2''))"
  "blog_api (category_request ''news'') = Inr (reply (JArr [news]) None)"
  "blog_api (post_request ''hello'') = Inr (reply (JArr [hello]) None)"
  by (simp_all add: blog_api_def categories_request_def recent_posts_request_def
      posts_request_def category_posts_request_def category_request_def post_request_def)

lemma category_posts_down_api_simps:
  "category_posts_down_api categories_request = Inr (reply (JArr [news]) None)"
  "category_posts_down_api recent_posts_request = Inr (reply (JArr [hello]) (Some ''2''))"
  "category_posts_down_api (category_request ''news'') = Inr (reply (JArr [news]) None)"
  "category_posts_down_api (category_posts_request cid p) =
     Inl (AxiosError ''Request failed with status code 500'')"
  by (simp_all add: category_posts_down_api_def blog_api_def categories_request_def
      recent_posts_request_def category_posts_request_def category_request_def)

lemma malformed_posts_api_simps:
  "malformed_posts_api categories_request = Inr (reply (JArr [news]) None)"
  "malformed_posts_api recent_posts_request = Inr (reply (JArr [hello]) (Some ''2''))"
  "malformed_posts_api (category_request ''news'') = Inr (reply (JArr [news]) None)"
  "malformed_posts_api (category_posts_request cid p) =
     Inr (reply (JObj [(''code'', JStr ''rest_error'')]) None)"
  by (simp_all add: malformed_posts_api_def blog_api_def categories_request_def
      recent_posts_request_def category_posts_request_def category_request_def)

lemma blog_sidebar:
  "fst (getSidebarData blog_api []) =
     Inr [(''categories'', JArr [news]), (''recentPosts'', JArr [hello])]"
  using getSidebarData_ok [of blog_api _ _ "[]"] by (simp add: blog_api_simps reply_def)

lemma malformed_sidebar:
  "fst (getSidebarData malformed_api []) =
     Inr [(''categories'', JObj [(''code'', JStr ''rest_no_route'')]),
          (''recentPosts'', JObj [(''code'', JStr ''rest_no_route'')])]"
  using getSidebarData_ok [of malformed_api _ _ "[]"]
  by (simp add: malformed_api_def reply_def)

lemma run_home_blog:
  "home_route blog_api pn =
     (render 200 ''index''
        [(''posts'', JArr [hello]), (''title'', JStr ''Modern Headless Blog''),
         (''categories'', JArr [news]), (''recentPosts'', JArr [hello]),
         (''currentPage'', JNum (page_of pn)), (''totalPages'', JNum (Num 2))],
      [posts_request (page_of pn), categories_request, recent_posts_request])"
proof -
  have h: "headers (reply (JArr [hello]) (Some ''2'')) ''x-wp-totalpages'' = Some ''2''"
    by (simp add: reply_def)
  have "fst (home_route blog_api pn) =
     render 200 ''index''
        [(''posts'', JArr [hello]), (''title'', JStr ''Modern Headless Blog''),
         (''categories'', JArr [news]), (''recentPosts'', JArr [hello]),
         (''currentPage'', JNum (page_of pn)), (''totalPages'', JNum (Num 2))]"
    using home_route_ok [where api = blog_api and pn = pn, OF blog_api_simps(3) _ blog_sidebar]
    by (simp add: h page_of_examples) (simp add: reply_def)
  then show ?thesis using home_route_log [of blog_api pn] by (simp add: prod_eq_iff)
qed

lemma run_archive_blog_news:
  "archive_route string_only blog_api ''news'' pn =
     (render 200 ''category-archive''
        [(''posts'', JArr [hello]), (''category'', news), (''title'', JStr ''Category: News''),
         (''categories'', JArr [news]), (''recentPosts'', JArr [hello]),
         (''currentPage'', JNum (page_of pn)), (''totalPages'', JNum (Num 2))],
      [categories_request, recent_posts_request, category_request ''news'',
       category_posts_request (JNum (Num 7)) (page_of pn)])"
proof -
  let ?L = "[categories_request, recent_posts_request, category_request ''news'']"
  have d: "\<not> not_array_or_empty (data (reply (JArr [news]) None))"
    and i: "index0 (data (reply (JArr [news]) None)) = news"
    by (simp_all add: reply_def)
  have cid: "get_prop news ''id'' = Inr (JNum (Num 7))"
    and nm: "get_prop news ''name'' = Inr (JStr ''News'')"
    and str: "string_only (JStr ''News'') = Inr ''News''"
    by (simp_all add: news_def string_only_def)
  have h: "headers (reply (JArr [hello]) (Some ''2'')) ''x-wp-totalpages'' = Some ''2''"
    and dt: "data (reply (JArr [hello]) (Some ''2'')) = JArr [hello]"
    by (simp_all add: reply_def)
  note ok = archive_fetch_posts_ok [where api = blog_api and toStr = string_only
      and log = ?L, OF cid blog_api_simps(4) nm str]
  note lg = archive_fetch_posts_log [where api = blog_api and toStr = string_only
      and log = ?L, OF cid]
  show ?thesis
    using archive_route_found [where api = blog_api and toStr = string_only and pn = pn,
        OF blog_api_simps(5) d blog_sidebar]
      ok [of "JArr [news]" "JArr [hello]" "page_of pn"]
      lg [of "[(''categories'', JArr [news]), (''recentPosts'', JArr [hello])]" "page_of pn"]
    by (simp add: i h dt page_of_examples split: prod.splits sum.splits)
qed

lemma run_home_negative_total:
  "fst (home_route negative_total_api pn) =
     render 200 ''index''
        [(''posts'', JArr []), (''title'', JStr ''Modern Headless Blog''),
         (''categories'', JArr []), (''recentPosts'', JArr []),
         (''currentPage'', JNum (page_of pn)), (''totalPages'', JNum (Num (- 2)))]"
proof -
  have a: "negative_total_api (posts_request (page_of pn)) = Inr (reply (JArr []) (Some ''-2''))"
    by (simp add: negative_total_api_def)
  have sb: "fst (getSidebarData negative_total_api []) =
     Inr [(''categories'', JArr []), (''recentPosts'', JArr [])]"
    using getSidebarData_ok [of negative_total_api _ _ "[]"]
    by (simp add: negative_total_api_def reply_def)
  show ?thesis
    using home_route_ok [where api = negative_total_api and pn = pn, OF a _ sb]
    by (simp add: reply_def page_of_examples)
qed

lemma run_home_down: "fst (home_route upstream_down pn) = home_error"
  by (rule home_route_failed) (simp add: upstream_down_def)

lemma run_post_malformed:
  "fst (post_route malformed_api slug) =
     render 404 ''error''
       [(''message'', JStr ''The post you were looking for could not be found.''),
        (''title'', JStr ''Post Not Found''),
        (''categories'', JObj [(''code'', JStr ''rest_no_route'')]),
        (''recentPosts'', JObj [(''code'', JStr ''rest_no_route'')])]"
  by (rule post_route_not_found [where res = "reply (JObj [(''code'', JStr ''rest_no_route'')]) None"])
     (simp_all add: malformed_api_def reply_def malformed_sidebar)

section \<open>The requested page\<close>

text \<open>
  Claim C1 says that an absent, non-numeric, zero or negative page number makes the
  listing and the archive handler use page 1. A negative number is a counterexample:
  \<^verbatim>\<open>parseInt("-3", 10) || 1\<close> is \<^verbatim>\<open>-3\<close>, which is truthy, so \<^verbatim>\<open>/page/-3\<close> and
  \<^verbatim>\<open>/category/news/page/-3\<close> request page \<^verbatim>\<open>-3\<close> and render \<^verbatim>\<open>currentPage\<close> = \<^verbatim>\<open>-3\<close>.
\<close>

theorem negative_page_counterexample:
  "snd (home_route blog_api (Some ''-3'')) =
     [\<lparr>path = ''/posts'',
       params = [(''per_page'', JNum (Num 10)), (''page'', JNum (Num (- 3)))]\<rparr>,
      categories_request, recent_posts_request] \<and>
   map_of (bag (fst (home_route blog_api (Some ''-3'')))) ''currentPage'' =
     Some (JNum (Num (- 3))) \<and>
   last (snd (archive_route string_only blog_api ''news'' (Some ''-3''))) =
     \<lparr>path = ''/posts'',
      params = [(''categories'', JNum (Num 7)), (''per_page'', JNum (Num 10)),
                (''page'', JNum (Num (- 3)))]\<rparr> \<and>
   map_of (bag (fst (archive_route string_only blog_api ''news'' (Some ''-3'')))) ''currentPage'' =
     Some (JNum (Num (- 3)))"
  by (simp add: run_home_blog run_archive_blog_news page_of_examples render_def
      posts_request_def category_posts_request_def)

text \<open>
  Claim C1, amended. When the page number is absent, or the digits that \<^verbatim>\<open>parseInt\<close>
  reads from it are none (a non-numeric parameter) or all zeros, both handlers use
  page 1: the listing handler's posts request carries \<^verbatim>\<open>page\<close> = 1, every request of the
  archive handler for a category's posts carries \<^verbatim>\<open>page\<close> = 1, and \<^verbatim>\<open>currentPage\<close> is 1 in
  the data bag of every success view (the other views have no \<^verbatim>\<open>currentPage\<close>).
\<close>

theorem default_page:
  assumes "pageNumber = None \<or> (\<forall>c\<in>set (leading_digits pageNumber). c = CHR ''0'')"
  shows "snd (home_route api pageNumber) =
       [posts_request (Num 1), categories_request, recent_posts_request] \<and>
     map_of (bag (fst (home_route api pageNumber))) ''currentPage'' =
       (if status (fst (home_route api pageNumber)) = 200 then Some (JNum (Num 1)) else None) \<and>
     (\<forall>cid p. category_posts_request cid p \<in> set (snd (archive_route toStr api slug pageNumber))
        \<longrightarrow> p = Num 1) \<and>
     map_of (bag (fst (archive_route toStr api slug pageNumber))) ''currentPage'' =
       (if status (fst (archive_route toStr api slug pageNumber)) = 200
        then Some (JNum (Num 1)) else None) \<and>
     (status (fst (archive_route toStr api slug pageNumber)) = 200 \<longrightarrow>
        (\<exists>cid. last (snd (archive_route toStr api slug pageNumber)) =
           category_posts_request cid (Num 1)))"
proof -
  have "\<forall>c\<in>set (leading_digits pageNumber). c = CHR ''0''"
    using assms by (auto simp: leading_digits_absent)
  then have p: "page_of pageNumber = Num 1" by (rule page_of_default)
  show ?thesis
    using home_route_log [of api pageNumber] home_route_currentPage [of api pageNumber]
      archive_route_page_param [of _ _ toStr api slug pageNumber]
      archive_route_currentPage [of toStr api slug pageNumber]
      archive_route_totalPages [of toStr api slug pageNumber]
    unfolding p by blast
qed

text \<open>
  \<^verbatim>\<open>/page/0\<close>, \<^verbatim>\<open>/\<close> and \<^verbatim>\<open>/page/abc\<close> on the healthy upstream, and \<^verbatim>\<open>/category/news/page/0\<close>.
\<close>

theorem default_page_witness:
  "leading_digits (Some ''0'') = ''0'' \<and>
   snd (home_route blog_api (Some ''0'')) =
     [posts_request (Num 1), categories_request, recent_posts_request] \<and>
   status (fst (home_route blog_api (Some ''0''))) = 200 \<and>
   map_of (bag (fst (home_route blog_api (Some ''0'')))) ''currentPage'' = Some (JNum (Num 1)) \<and>
   status (fst (archive_route string_only blog_api ''news'' (Some ''0''))) = 200 \<and>
   map_of (bag (fst (archive_route string_only blog_api ''news'' (Some ''0'')))) ''currentPage'' =
     Some (JNum (Num 1)) \<and>
   last (snd (archive_route string_only blog_api ''news'' (Some ''0''))) =
     category_posts_request (JNum (Num 7)) (Num 1) \<and>
   snd (home_route blog_api None) =
     [posts_request (Num 1), categories_request, recent_posts_request] \<and>
   leading_digits (Some ''abc'') = [] \<and>
   snd (home_route blog_api (Some ''abc'')) =
     [posts_request (Num 1), categories_request, recent_posts_request]"
proof -
  have a: "Some ''0'' = None \<or> (\<forall>c\<in>set (leading_digits (Some ''0'')). c = CHR ''0'')"
    by (simp add: leading_examples)
  have c: "Some ''abc'' = None \<or> (\<forall>c\<in>set (leading_digits (Some ''abc'')). c = CHR ''0'')"
    by (simp add: leading_examples)
  have b: "(None :: string option) = None \<or> (\<forall>c\<in>set (leading_digits None). c = CHR ''0'')"
    by simp
  have s1: "status (fst (home_route blog_api (Some ''0''))) = 200"
    by (simp add: run_home_blog render_def)
  have s2: "status (fst (archive_route string_only blog_api ''news'' (Some ''0''))) = 200"
    by (simp add: run_archive_blog_news render_def)
  have l: "last (snd (archive_route string_only blog_api ''news'' (Some ''0''))) =
     category_posts_request (JNum (Num 7)) (Num 1)"
    by (simp add: run_archive_blog_news page_of_examples)
  from default_page [OF a, of blog_api string_only "''news''"]
    default_page [OF b, of blog_api string_only "''news''"]
    default_page [OF c, of blog_api string_only "''news''"] s1 s2 l
  show ?thesis by (simp add: leading_examples)
qed

text \<open>
  Claim C9 says that a page number with a leading decimal integer followed by other
  characters is used as that integer instead of the default. A leading integer of
  zero is a counterexample: \<^verbatim>\<open>parseInt("0abc", 10)\<close> is 0, which is falsy, and the page
  requested is the default 1.
\<close>

theorem zero_prefix_counterexample:
  "leading_digits (Some ''0abc'') = ''0'' \<and> dec_value ''0'' = 0 \<and>
   snd (home_route blog_api (Some ''0abc'')) =
     [\<lparr>path = ''/posts'',
       params = [(''per_page'', JNum (Num 10)), (''page'', JNum (Num 1))]\<rparr>,
      categories_request, recent_posts_request] \<and>
   map_of (bag (fst (home_route blog_api (Some ''0abc'')))) ''currentPage'' =
     Some (JNum (Num 1))"
  by (simp add: run_home_blog page_of_examples leading_examples render_def posts_request_def
      dec_value_def digit_val_def)

text \<open>
  Claim C9, amended. When the page number is optional white space, an optional sign, a
  run of decimal digits whose value is not zero, and then nothing or a character that
  is not a digit, both handlers use the JavaScript number of that signed integer as
  the page: the integer itself when it is below \<open>2 ^ 53\<close>, and the nearest double
  otherwise. It is the \<^verbatim>\<open>page\<close> parameter of the posts requests and the \<^verbatim>\<open>currentPage\<close> of
  the success views.
\<close>

theorem integer_prefix_page:
  assumes "pageNumber = Some (ws @ sg @ ds @ rest)"
    and "\<forall>c\<in>set ws. is_space c"
    and "sg = [] \<or> sg = ''+'' \<or> sg = ''-''"
    and "ds \<noteq> []" "\<forall>c\<in>set ds. is_digit c"
    and "rest = [] \<or> \<not> is_digit (hd rest)"
    and "dec_value ds \<noteq> 0"
  shows "page_of pageNumber =
       (if sg = ''-'' then negate (to_number (dec_value ds)) else to_number (dec_value ds)) \<and>
     (dec_value ds < 2 ^ 53 \<longrightarrow>
        page_of pageNumber =
          Num (if sg = ''-'' then - int (dec_value ds) else int (dec_value ds))) \<and>
     snd (home_route api pageNumber) =
       [posts_request (page_of pageNumber), categories_request, recent_posts_request] \<and>
     map_of (bag (fst (home_route api pageNumber))) ''currentPage'' =
       (if status (fst (home_route api pageNumber)) = 200
        then Some (JNum (page_of pageNumber)) else None) \<and>
     (\<forall>cid p. category_posts_request cid p \<in> set (snd (archive_route toStr api slug pageNumber))
        \<longrightarrow> p = page_of pageNumber) \<and>
     map_of (bag (fst (archive_route toStr api slug pageNumber))) ''currentPage'' =
       (if status (fst (archive_route toStr api slug pageNumber)) = 200
        then Some (JNum (page_of pageNumber)) else None) \<and>
     (status (fst (archive_route toStr api slug pageNumber)) = 200 \<longrightarrow>
        (\<exists>cid. last (snd (archive_route toStr api slug pageNumber)) =
           category_posts_request cid (page_of pageNumber)))"
proof -
  have p: "page_of pageNumber =
       (if sg = ''-'' then negate (to_number (dec_value ds)) else to_number (dec_value ds))"
    unfolding assms(1) by (rule page_of_prefix [OF assms(2-7)])
  have exact: "dec_value ds < 2 ^ 53 \<longrightarrow>
        page_of pageNumber =
          Num (if sg = ''-'' then - int (dec_value ds) else int (dec_value ds))"
    unfolding p by (simp add: to_number_exact)
  show ?thesis
    using p exact home_route_log [of api pageNumber] home_route_currentPage [of api pageNumber]
      archive_route_page_param [of _ _ toStr api slug pageNumber]
      archive_route_currentPage [of toStr api slug pageNumber]
      archive_route_totalPages [of toStr api slug pageNumber]
    by blast
qed

text \<open>
  \<^verbatim>\<open>2abc\<close> is page 2 on both routes, and \<^verbatim>\<open>1.9\<close> is page 1.
\<close>

theorem integer_prefix_page_witness:
  "dec_value ''2'' = 2 \<and> dec_value ''1'' = 1 \<and>
   page_of (Some ''2abc'') = Num 2 \<and>
   snd (home_route blog_api (Some ''2abc'')) =
     [posts_request (Num 2), categories_request, recent_posts_request] \<and>
   map_of (bag (fst (home_route blog_api (Some ''2abc'')))) ''currentPage'' = Some (JNum (Num 2)) \<and>
   last (snd (archive_route string_only blog_api ''news'' (Some ''2abc''))) =
     category_posts_request (JNum (Num 7)) (Num 2) \<and>
   page_of (Some ''1.9'') = Num 1 \<and>
   snd (home_route blog_api (Some ''1.9'')) =
     [posts_request (Num 1), categories_request, recent_posts_request]"
proof -
  have d: "dec_value ''2'' = 2" "dec_value ''1'' = 1"
    by (simp_all add: dec_value_def digit_val_def)
  have a: "Some ''2abc'' = Some ([] @ [] @ ''2'' @ ''abc'')"
    and b: "Some ''1.9'' = Some ([] @ [] @ ''1'' @ ''.9'')"
    by simp_all
  have ws: "\<forall>c\<in>set []. is_space c" and sg: "[] = [] \<or> [] = ''+'' \<or> [] = ''-''"
    by simp_all
  have d2: "''2'' \<noteq> []" "\<forall>c\<in>set ''2''. is_digit c" "''abc'' = [] \<or> \<not> is_digit (hd ''abc'')"
      "dec_value ''2'' \<noteq> 0"
    and d1: "''1'' \<noteq> []" "\<forall>c\<in>set ''1''. is_digit c" "''.9'' = [] \<or> \<not> is_digit (hd ''.9'')"
      "dec_value ''1'' \<noteq> 0"
    by (simp_all add: is_digit_def d)
  have s1: "status (fst (home_route blog_api (Some ''2abc''))) = 200"
    by (simp add: run_home_blog render_def)
  have s2: "status (fst (archive_route string_only blog_api ''news'' (Some ''2abc''))) = 200"
    by (simp add: run_archive_blog_news render_def)
  have l: "last (snd (archive_route string_only blog_api ''news'' (Some ''2abc''))) =
     category_posts_request (JNum (Num 7)) (page_of (Some ''2abc''))"
    by (simp add: run_archive_blog_news)
  note t2 = integer_prefix_page [OF a ws sg d2, of blog_api string_only "''news''"]
  note t1 = integer_prefix_page [OF b ws sg d1, of blog_api string_only "''news''"]
  from t2 t1 d s1 s2 l show ?thesis by (simp add: to_number_def)
qed

section \<open>Pagination state in the data bag\<close>

text \<open>
  Claim C2 says that \<^verbatim>\<open>currentPage\<close> is a positive integer and \<^verbatim>\<open>totalPages\<close> is at least 1
  in every data bag with pagination state, for all route inputs and header values.
  On \<^verbatim>\<open>/page/-3\<close>, with an upstream whose total page count header is \<^verbatim>\<open>-2\<close>, the listing
  view is rendered with \<^verbatim>\<open>currentPage\<close> = \<^verbatim>\<open>-3\<close> and \<^verbatim>\<open>totalPages\<close> = \<^verbatim>\<open>-2\<close>.
\<close>

theorem nonpositive_pagination_counterexample:
  "map_of (bag (fst (home_route negative_total_api (Some ''-3'')))) ''currentPage'' =
     Some (JNum (Num (- 3))) \<and>
   map_of (bag (fst (home_route negative_total_api (Some ''-3'')))) ''totalPages'' =
     Some (JNum (Num (- 2))) \<and>
   \<not> positive_integer (Num (- 3)) \<and> \<not> positive_integer (Num (- 2))"
  by (simp add: run_home_negative_total page_of_examples render_def positive_integer_def)

text \<open>
  Claim C2, amended. A data bag of the listing or the archive handler that has
  \<^verbatim>\<open>currentPage\<close> or \<^verbatim>\<open>totalPages\<close> has both: \<^verbatim>\<open>currentPage\<close> is \<^verbatim>\<open>parseInt(pageNumber) || 1\<close>
  and \<^verbatim>\<open>totalPages\<close> is \<^verbatim>\<open>parseInt(header) || 1\<close> for the total page count header of the
  response to a posts request of the handler. Neither is ever NaN or zero, and each is
  a positive integer whenever the string it is read from is absent, or has no minus
  sign before its leading digits and at most 308 of them.
\<close>

theorem pagination_state:
  assumes "(r, log) = home_route api pageNumber \<or>
           (r, log) = archive_route toStr api slug pageNumber"
    and "map_of (bag r) ''currentPage'' \<noteq> None \<or> map_of (bag r) ''totalPages'' \<noteq> None"
  shows "\<exists>req res total.
     req \<in> set log \<and> path req = ''/posts'' \<and> api req = Inr res \<and>
     total = headers res ''x-wp-totalpages'' \<and>
     map_of (bag r) ''currentPage'' = Some (JNum (page_of pageNumber)) \<and>
     map_of (bag r) ''totalPages'' = Some (JNum (page_of total)) \<and>
     page_of pageNumber \<noteq> NaN \<and> page_of pageNumber \<noteq> Num 0 \<and>
     page_of total \<noteq> NaN \<and> page_of total \<noteq> Num 0 \<and>
     (\<not> leading_minus pageNumber \<and> length (leading_digits pageNumber) \<le> 308 \<longrightarrow>
        positive_integer (page_of pageNumber)) \<and>
     (\<not> leading_minus total \<and> length (leading_digits total) \<le> 308 \<longrightarrow>
        positive_integer (page_of total))"
proof -
  have props: "\<And>s. page_of s \<noteq> NaN \<and> page_of s \<noteq> Num 0 \<and>
      (\<not> leading_minus s \<and> length (leading_digits s) \<le> 308 \<longrightarrow> positive_integer (page_of s))"
    using page_of_nonzero page_of_positive_integer by blast
  from assms(1) show ?thesis
  proof
    assume h: "(r, log) = home_route api pageNumber"
    then have r: "r = fst (home_route api pageNumber)" and l: "log = snd (home_route api pageNumber)"
      by (simp_all add: prod_eq_iff)
    have ok: "status (fst (home_route api pageNumber)) = 200"
    proof (rule ccontr)
      assume "status (fst (home_route api pageNumber)) \<noteq> 200"
      from home_route_no_pagination [OF this] assms(2) show False unfolding r by simp
    qed
    from home_route_totalPages [OF ok] obtain res where
      res: "api (posts_request (page_of pageNumber)) = Inr res"
        "map_of (bag r) ''totalPages'' = Some (JNum (page_of (headers res ''x-wp-totalpages'')))"
      unfolding r by blast
    have "posts_request (page_of pageNumber) \<in> set log"
      unfolding l home_route_log by simp
    moreover have "path (posts_request (page_of pageNumber)) = ''/posts''"
      by (simp add: posts_request_def)
    moreover have "map_of (bag r) ''currentPage'' = Some (JNum (page_of pageNumber))"
      unfolding r home_route_currentPage using ok by simp
    ultimately show ?thesis using res props by blast
  next
    assume h: "(r, log) = archive_route toStr api slug pageNumber"
    then have r: "r = fst (archive_route toStr api slug pageNumber)"
      and l: "log = snd (archive_route toStr api slug pageNumber)"
      by (simp_all add: prod_eq_iff)
    have ok: "status (fst (archive_route toStr api slug pageNumber)) = 200"
    proof (rule ccontr)
      assume "status (fst (archive_route toStr api slug pageNumber)) \<noteq> 200"
      from archive_route_no_pagination [OF this] assms(2) show False unfolding r by simp
    qed
    from archive_route_totalPages [OF ok] obtain cid res where
      res: "last log = category_posts_request cid (page_of pageNumber)"
        "api (category_posts_request cid (page_of pageNumber)) = Inr res"
        "map_of (bag r) ''totalPages'' = Some (JNum (page_of (headers res ''x-wp-totalpages'')))"
      unfolding r l by blast
    have "log \<noteq> []"
      using archive_route_cases [of toStr api slug pageNumber] unfolding l by auto
    then have "category_posts_request cid (page_of pageNumber) \<in> set log"
      using res(1) last_in_set by metis
    moreover have "path (category_posts_request cid (page_of pageNumber)) = ''/posts''"
      by (simp add: category_posts_request_def)
    moreover have "map_of (bag r) ''currentPage'' = Some (JNum (page_of pageNumber))"
      unfolding r archive_route_currentPage using ok by simp
    ultimately show ?thesis using res props by blast
  qed
qed

text \<open>
  \<^verbatim>\<open>/page/2\<close> on the healthy upstream, which reports two pages.
\<close>

theorem pagination_state_witness:
  "(fst (home_route blog_api (Some ''2'')), snd (home_route blog_api (Some ''2''))) =
     home_route blog_api (Some ''2'') \<and>
   map_of (bag (fst (home_route blog_api (Some ''2'')))) ''currentPage'' = Some (JNum (Num 2)) \<and>
   map_of (bag (fst (home_route blog_api (Some ''2'')))) ''totalPages'' = Some (JNum (Num 2)) \<and>
   \<not> leading_minus (Some ''2'') \<and> length (leading_digits (Some ''2'')) \<le> 308 \<and>
   positive_integer (page_of (Some ''2''))"
proof -
  let ?r = "fst (home_route blog_api (Some ''2''))"
  let ?log = "snd (home_route blog_api (Some ''2''))"
  have a: "(?r, ?log) = home_route blog_api (Some ''2'') \<or>
           (?r, ?log) = archive_route string_only blog_api ''news'' (Some ''2'')"
    by simp
  have c: "map_of (bag ?r) ''currentPage'' = Some (JNum (Num 2))"
    and t: "map_of (bag ?r) ''totalPages'' = Some (JNum (Num 2))"
    by (simp_all add: run_home_blog render_def page_of_examples)
  then have b: "map_of (bag ?r) ''currentPage'' \<noteq> None \<or> map_of (bag ?r) ''totalPages'' \<noteq> None"
    by simp
  have p: "\<not> leading_minus (Some ''2'')" "length (leading_digits (Some ''2'')) \<le> 308"
    by (simp_all add: leading_examples)
  from pagination_state [OF a b] p have "positive_integer (page_of (Some ''2''))" by blast
  with c t p show ?thesis by simp
qed

section \<open>The sidebar never fails and is never partial\<close>

text \<open>
  Claim C3. \<^verbatim>\<open>getSidebarData\<close> never raises: it returns an object for every upstream and
  every log. When one of its two upstream calls (categories, recent posts) fails, the
  object is exactly \<^verbatim>\<open>{categories: [], recentPosts: []}\<close>, also when the other call
  succeeded.
\<close>

theorem sidebar_all_or_nothing:
  "(\<exists>sidebar. fst (getSidebarData api log) = Inr sidebar) \<and>
   (isl (api categories_request) \<or> isl (api recent_posts_request) \<longrightarrow>
      fst (getSidebarData api log) =
        Inr [(''categories'', JArr []), (''recentPosts'', JArr [])])"
  using getSidebarData_shape [of api log] getSidebarData_failed [of api log]
  by (auto simp: empty_sidebar_def)

text \<open>
  On the upstream whose post lists fail, the categories call succeeds and the recent
  posts call fails: the sidebar is empty, not the categories alone.
\<close>

theorem sidebar_all_or_nothing_witness:
  "isl (posts_down_api recent_posts_request) \<and> \<not> isl (posts_down_api categories_request) \<and>
   fst (getSidebarData posts_down_api []) =
     Inr [(''categories'', JArr []), (''recentPosts'', JArr [])]"
proof -
  have a: "isl (posts_down_api recent_posts_request)"
    by (simp add: posts_down_api_def recent_posts_request_def)
  have b: "\<not> isl (posts_down_api categories_request)"
    by (simp add: posts_down_api_def categories_request_def blog_api_def)
  from a b sidebar_all_or_nothing [of posts_down_api "[]"] show ?thesis by simp
qed

section \<open>Sidebar data in the data bag\<close>

text \<open>
  Claim C4 says that every data bag, those of error views included, has the keys
  \<^verbatim>\<open>categories\<close> and \<^verbatim>\<open>recentPosts\<close>. The \<^verbatim>\<open>catch\<close> block of each handler renders the error
  view with \<^verbatim>\<open>message\<close> and \<^verbatim>\<open>title\<close> only: with the upstream down, the bag of \<^verbatim>\<open>GET /\<close> has
  neither key.
\<close>

theorem error_view_without_sidebar_counterexample:
  "fst (home_route upstream_down None) =
     \<lparr>status = 500, view = ''error'',
      bag = [(''message'', JStr ''Could not fetch posts. Please check the API connection.''),
             (''title'', JStr ''Error'')]\<rparr> \<and>
   map_of (bag (fst (home_route upstream_down None))) ''categories'' = None \<and>
   map_of (bag (fst (home_route upstream_down None))) ''recentPosts'' = None"
  by (simp add: run_home_down home_error_def render_def)

text \<open>
  Claim C4, amended. Every handler answers with status 200, 404 or 500. The data bag
  of a response with status 200 or 404 has \<^verbatim>\<open>categories\<close> and \<^verbatim>\<open>recentPosts\<close>, with the
  values that \<^verbatim>\<open>getSidebarData\<close> returned; the data bag of a response with status 500 is
  that of the error view and has exactly the keys \<^verbatim>\<open>message\<close> and \<^verbatim>\<open>title\<close>.
\<close>

theorem sidebar_keys:
  assumes "r = fst (home_route api pageNumber) \<or> r = fst (post_route api slug) \<or>
           r = fst (archive_route toStr api slug pageNumber)"
  shows "(status r = 200 \<or> status r = 404 \<or> status r = 500) \<and>
     (status r = 500 \<longrightarrow> view r = ''error'' \<and> map fst (bag r) = [''message'', ''title'']) \<and>
     (status r \<noteq> 500 \<longrightarrow>
        (\<exists>c rp. fst (getSidebarData api []) = Inr [(''categories'', c), (''recentPosts'', rp)] \<and>
           map_of (bag r) ''categories'' = Some c \<and> map_of (bag r) ''recentPosts'' = Some rp))"
  using assms
proof (elim disjE)
  assume "r = fst (home_route api pageNumber)"
  then show ?thesis
    using home_route_cases [of api pageNumber]
    by (auto simp: home_error_def render_def)
next
  assume "r = fst (post_route api slug)"
  then show ?thesis
    using post_route_cases [of api slug]
    by (auto simp: post_error_def render_def)
next
  assume "r = fst (archive_route toStr api slug pageNumber)"
  then show ?thesis
    using archive_route_cases [of toStr api slug pageNumber]
    by (elim disjE exE conjE) (auto simp: archive_error_def render_def)
qed

text \<open>
  \<^verbatim>\<open>GET /\<close> on the healthy upstream and on the upstream that is down.
\<close>

theorem sidebar_keys_witness:
  "status (fst (home_route blog_api None)) = 200 \<and>
   fst (getSidebarData blog_api []) =
     Inr [(''categories'', JArr [news]), (''recentPosts'', JArr [hello])] \<and>
   map_of (bag (fst (home_route blog_api None))) ''categories'' = Some (JArr [news]) \<and>
   map_of (bag (fst (home_route blog_api None))) ''recentPosts'' = Some (JArr [hello]) \<and>
   status (fst (home_route upstream_down None)) = 500 \<and>
   map fst (bag (fst (home_route upstream_down None))) = [''message'', ''title'']"
proof -
  have a: "fst (home_route blog_api None) = fst (home_route blog_api None) \<or>
      fst (home_route blog_api None) = fst (post_route blog_api ''hello'') \<or>
      fst (home_route blog_api None) = fst (archive_route string_only blog_api ''hello'' None)"
    by simp
  have b: "fst (home_route upstream_down None) = fst (home_route upstream_down None) \<or>
      fst (home_route upstream_down None) = fst (post_route upstream_down ''hello'') \<or>
      fst (home_route upstream_down None) = fst (archive_route string_only upstream_down ''hello'' None)"
    by simp
  have s1: "status (fst (home_route blog_api None)) = 200"
    by (simp add: run_home_blog render_def)
  have s2: "status (fst (home_route upstream_down None)) = 500"
    by (simp add: run_home_down home_error_def render_def)
  from sidebar_keys [OF a] sidebar_keys [OF b] s1 s2 show ?thesis
    by (simp add: blog_sidebar)
qed

section \<open>Payloads that are not sequences\<close>

text \<open>
  Claim C5 says that each of the three handlers, the single post handler included,
  answers a primary payload that is not a sequence with status 500. The single post
  handler tests \<^verbatim>\<open>!Array.isArray(postRes.data) || postRes.data.length === 0\<close> and
  answers both cases with the not-found view: on an upstream that answers with a JSON
  object, \<^verbatim>\<open>/post/hello\<close> has status 404.
\<close>

theorem malformed_post_counterexample:
  "malformed_api (post_request ''hello'') =
     Inr (reply (JObj [(''code'', JStr ''rest_no_route'')]) None) \<and>
   \<not> isArray (data (reply (JObj [(''code'', JStr ''rest_no_route'')]) None)) \<and>
   status (fst (post_route malformed_api ''hello'')) = 404 \<and>
   map_of (bag (fst (post_route malformed_api ''hello''))) ''message'' =
     Some (JStr ''The post you were looking for could not be found.'')"
  by (simp add: run_post_malformed render_def malformed_api_def reply_def)

text \<open>
  Claim C5, amended. When the payload of the posts fetch is not a sequence, the listing
  handler renders the error view with status 500 and the message
  \<^verbatim>\<open>Could not fetch posts. Please check the API connection.\<close>; the single post handler
  renders the error view with status 404, the message
  \<^verbatim>\<open>The post you were looking for could not be found.\<close> and the sidebar data.
\<close>

theorem malformed_primary_payload:
  "(api (posts_request (page_of pageNumber)) = Inr res \<and> \<not> isArray (data res) \<longrightarrow>
      fst (home_route api pageNumber) =
        \<lparr>status = 500, view = ''error'',
         bag = [(''message'', JStr ''Could not fetch posts. Please check the API connection.''),
                (''title'', JStr ''Error'')]\<rparr>) \<and>
   (api (post_request slug) = Inr res' \<and> \<not> isArray (data res') \<and>
    fst (getSidebarData api []) = Inr sidebar \<longrightarrow>
      fst (post_route api slug) =
        \<lparr>status = 404, view = ''error'',
         bag = [(''message'', JStr ''The post you were looking for could not be found.''),
                (''title'', JStr ''Post Not Found'')] @ sidebar\<rparr>)"
proof (intro conjI impI)
  assume "api (posts_request (page_of pageNumber)) = Inr res \<and> \<not> isArray (data res)"
  then show "fst (home_route api pageNumber) =
        \<lparr>status = 500, view = ''error'',
         bag = [(''message'', JStr ''Could not fetch posts. Please check the API connection.''),
                (''title'', JStr ''Error'')]\<rparr>"
    by (simp add: home_route_invalid home_error_def render_def)
next
  assume a: "api (post_request slug) = Inr res' \<and> \<not> isArray (data res') \<and>
    fst (getSidebarData api []) = Inr sidebar"
  then obtain c r where sb: "sidebar = [(''categories'', c), (''recentPosts'', r)]"
    using getSidebarData_shape [of api "[]"] by auto
  have nf: "not_array_or_empty (data res')" using a by (cases "data res'") auto
  show "fst (post_route api slug) =
        \<lparr>status = 404, view = ''error'',
         bag = [(''message'', JStr ''The post you were looking for could not be found.''),
                (''title'', JStr ''Post Not Found'')] @ sidebar\<rparr>"
    using post_route_not_found [where api = api and slug = slug and res = res' and c = c and r = r]
      a nf sb
    by (simp add: render_def)
qed

text \<open>
  \<^verbatim>\<open>GET /\<close> and \<^verbatim>\<open>GET /post/hello\<close> on the upstream that answers with a JSON object.
\<close>

theorem malformed_primary_payload_witness:
  "malformed_api (posts_request (page_of None)) =
     Inr (reply (JObj [(''code'', JStr ''rest_no_route'')]) None) \<and>
   malformed_api (post_request ''hello'') =
     Inr (reply (JObj [(''code'', JStr ''rest_no_route'')]) None) \<and>
   \<not> isArray (data (reply (JObj [(''code'', JStr ''rest_no_route'')]) None)) \<and>
   fst (home_route malformed_api None) =
     \<lparr>status = 500, view = ''error'',
      bag = [(''message'', JStr ''Could not fetch posts. Please check the API connection.''),
             (''title'', JStr ''Error'')]\<rparr> \<and>
   fst (post_route malformed_api ''hello'') =
     \<lparr>status = 404, view = ''error'',
      bag = [(''message'', JStr ''The post you were looking for could not be found.''),
             (''title'', JStr ''Post Not Found''),
             (''categories'', JObj [(''code'', JStr ''rest_no_route'')]),
             (''recentPosts'', JObj [(''code'', JStr ''rest_no_route'')])]\<rparr>"
proof -
  let ?res = "reply (JObj [(''code'', JStr ''rest_no_route'')]) None"
  have a: "malformed_api (posts_request (page_of None)) = Inr ?res"
    and b: "malformed_api (post_request ''hello'') = Inr ?res"
    by (simp_all add: malformed_api_def)
  have c: "\<not> isArray (data ?res)" by (simp add: reply_def)
  from malformed_primary_payload
    [where api = malformed_api and pageNumber = None and slug = "''hello''"
       and res = ?res and res' = ?res
       and sidebar = "[(''categories'', JObj [(''code'', JStr ''rest_no_route'')]),
          (''recentPosts'', JObj [(''code'', JStr ''rest_no_route'')])]"]
    a b c malformed_sidebar
  show ?thesis by simp
qed

text \<open>
  Claim C6 says that the archive handler validates that its posts payload is a
  sequence before it renders the archive view, as the listing handler does. It does
  not: when the lookup finds the category and the posts fetch answers with a JSON
  object, \<^verbatim>\<open>/category/news\<close> renders the archive view with status 200 and that object
  as \<^verbatim>\<open>posts\<close>.
\<close>

theorem archive_renders_malformed_posts:
  "malformed_posts_api (category_posts_request (JNum (Num 7)) (Num 1)) =
     Inr (reply (JObj [(''code'', JStr ''rest_error'')]) None) \<and>
   \<not> isArray (data (reply (JObj [(''code'', JStr ''rest_error'')]) None)) \<and>
   archive_route string_only malformed_posts_api ''news'' None =
     (\<lparr>status = 200, view = ''category-archive'',
       bag = [(''posts'', JObj [(''code'', JStr ''rest_error'')]), (''category'', news),
              (''title'', JStr ''Category: News''),
              (''categories'', JArr [news]), (''recentPosts'', JArr [hello]),
              (''currentPage'', JNum (Num 1)), (''totalPages'', JNum (Num 1))]\<rparr>,
      [categories_request, recent_posts_request, category_request ''news'',
       category_posts_request (JNum (Num 7)) (Num 1)])"
proof -
  note s = malformed_posts_api_simps
  let ?L = "[categories_request, recent_posts_request, category_request ''news'']"
  have sb: "fst (getSidebarData malformed_posts_api []) =
     Inr [(''categories'', JArr [news]), (''recentPosts'', JArr [hello])]"
    using getSidebarData_ok [of malformed_posts_api _ _ "[]"] by (simp add: s reply_def)
  have d: "\<not> not_array_or_empty (data (reply (JArr [news]) None))"
    and i: "index0 (data (reply (JArr [news]) None)) = news"
    by (simp_all add: reply_def)
  have cid: "get_prop news ''id'' = Inr (JNum (Num 7))"
    and nm: "get_prop news ''name'' = Inr (JStr ''News'')"
    and str: "string_only (JStr ''News'') = Inr ''News''"
    by (simp_all add: news_def string_only_def)
  have h: "headers (reply (JObj [(''code'', JStr ''rest_error'')]) None) ''x-wp-totalpages'' = None"
    and dt: "data (reply (JObj [(''code'', JStr ''rest_error'')]) None) =
      JObj [(''code'', JStr ''rest_error'')]"
    by (simp_all add: reply_def)
  note ok = archive_fetch_posts_ok [where api = malformed_posts_api and toStr = string_only
      and log = ?L, OF cid s(4) nm str]
  note lg = archive_fetch_posts_log [where api = malformed_posts_api and toStr = string_only
      and log = ?L, OF cid]
  have "archive_route string_only malformed_posts_api ''news'' None =
     (render 200 ''category-archive''
        [(''posts'', JObj [(''code'', JStr ''rest_error'')]), (''category'', news),
         (''title'', JStr ''Category: News''),
         (''categories'', JArr [news]), (''recentPosts'', JArr [hello]),
         (''currentPage'', JNum (Num 1)), (''totalPages'', JNum (Num 1))],
      ?L @ [category_posts_request (JNum (Num 7)) (Num 1)])"
    using archive_route_found [where api = malformed_posts_api and toStr = string_only
        and pn = None, OF s(3) d sb]
      ok [of "JArr [news]" "JArr [hello]" "Num 1"]
      lg [of "[(''categories'', JArr [news]), (''recentPosts'', JArr [hello])]" "Num 1"]
    by (simp add: i h dt page_of_examples split: prod.splits sum.splits)
  then show ?thesis by (simp add: render_def s reply_def)
qed

section \<open>The category archive\<close>

text \<open>
  Claim C7. When the lookup of the category slug answers with a sequence whose first
  element is a category with a numeric identifier, the archive handler's next and
  last call is \<^verbatim>\<open>GET /posts\<close> with exactly the parameters \<^verbatim>\<open>categories\<close> = that identifier,
  \<^verbatim>\<open>per_page\<close> = 10 and \<^verbatim>\<open>page\<close> = the requested page, and all three are sent; the slug
  is a parameter of the lookup only.
\<close>

theorem archive_posts_filtered_by_id:
  assumes "api (category_request slug) = Inr res"
    and "data res = JArr (JObj category # others)"
    and "map_of category ''id'' = Some (JNum (Num n))"
  shows "snd (archive_route toStr api slug pageNumber) =
       [categories_request, recent_posts_request, category_request slug,
        \<lparr>path = ''/posts'',
         params = [(''categories'', JNum (Num n)), (''per_page'', JNum (Num 10)),
                   (''page'', JNum (page_of pageNumber))]\<rparr>] \<and>
     sent_params (params (last (snd (archive_route toStr api slug pageNumber)))) =
       [(''categories'', JNum (Num n)), (''per_page'', JNum (Num 10)),
        (''page'', JNum (page_of pageNumber))]"
proof -
  obtain sb where sb: "fst (getSidebarData api []) = Inr sb"
    using getSidebarData_shape [of api "[]"] by auto
  have found: "\<not> not_array_or_empty (data res)" using assms(2) by simp
  have cid: "get_prop (index0 (data res)) ''id'' = Inr (JNum (Num n))"
    using assms(2,3) by simp
  have log: "snd (archive_route toStr api slug pageNumber) =
       [categories_request, recent_posts_request, category_request slug,
        \<lparr>path = ''/posts'',
         params = [(''categories'', JNum (Num n)), (''per_page'', JNum (Num 10)),
                   (''page'', JNum (page_of pageNumber))]\<rparr>]"
    using archive_route_found [OF assms(1) found sb, of toStr pageNumber]
      archive_fetch_posts_log [OF cid, of toStr api sb "page_of pageNumber"
        "[categories_request, recent_posts_request, category_request slug]"]
    by (simp add: category_posts_request_def split: prod.splits sum.splits)
  show ?thesis unfolding log by (simp add: sent_params_def)
qed

text \<open>
  \<^verbatim>\<open>GET /category/news/page/2\<close> on the healthy upstream asks for the posts of category 7.
\<close>

theorem archive_posts_filtered_by_id_witness:
  "blog_api (category_request ''news'') = Inr (reply (JArr [news]) None) \<and>
   data (reply (JArr [news]) None) =
     JArr [JObj [(''id'', JNum (Num 7)), (''slug'', JStr ''news''), (''name'', JStr ''News'')]] \<and>
   snd (archive_route string_only blog_api ''news'' (Some ''2'')) =
     [categories_request, recent_posts_request, category_request ''news'',
      \<lparr>path = ''/posts'',
       params = [(''categories'', JNum (Num 7)), (''per_page'', JNum (Num 10)),
                 (''page'', JNum (Num 2))]\<rparr>] \<and>
   sent_params (params (last (snd (archive_route string_only blog_api ''news'' (Some ''2''))))) =
     [(''categories'', JNum (Num 7)), (''per_page'', JNum (Num 10)), (''page'', JNum (Num 2))]"
proof -
  have a: "blog_api (category_request ''news'') = Inr (reply (JArr [news]) None)"
    by (simp add: blog_api_simps)
  have b: "data (reply (JArr [news]) None) =
     JArr (JObj [(''id'', JNum (Num 7)), (''slug'', JStr ''news''), (''name'', JStr ''News'')] # [])"
    by (simp add: reply_def news_def)
  have c: "map_of [(''id'', JNum (Num 7)), (''slug'', JStr ''news''), (''name'', JStr ''News'')] ''id''
      = Some (JNum (Num 7))" by simp
  have p: "page_of (Some ''2'') = Num 2" by (simp add: page_of_examples)
  from archive_posts_filtered_by_id
    [where api = blog_api and slug = "''news''" and toStr = string_only
       and pageNumber = "Some ''2''", OF a b c] a b p
  show ?thesis by (simp add: sent_params_def)
qed

text \<open>
  Claim C8. When the lookup of the category slug answers with an empty sequence or
  with something that is not a sequence, the archive handler renders the error view
  with status 404, the message \<^verbatim>\<open>The category you were looking for could not be found.\<close>
  and the sidebar data that \<^verbatim>\<open>getSidebarData\<close> returned.
\<close>

theorem category_not_found_view:
  assumes "api (category_request slug) = Inr res"
    and "data res = JArr [] \<or> \<not> isArray (data res)"
    and "fst (getSidebarData api []) = Inr sidebar"
  shows "fst (archive_route toStr api slug pageNumber) =
     \<lparr>status = 404, view = ''error'',
      bag = [(''message'', JStr ''The category you were looking for could not be found.''),
             (''title'', JStr ''Category Not Found'')] @ sidebar\<rparr>"
proof -
  obtain c r where sb: "sidebar = [(''categories'', c), (''recentPosts'', r)]"
    using getSidebarData_shape [of api "[]"] assms(3) by auto
  have nf: "not_array_or_empty (data res)"
    using assms(2) by (cases "data res") auto
  show ?thesis
    using archive_route_not_found [OF assms(1) nf assms(3) [unfolded sb], of toStr pageNumber]
    by (simp add: sb render_def)
qed

text \<open>
  \<^verbatim>\<open>GET /category/missing-cat\<close> on the healthy upstream, whose lookup answers \<^verbatim>\<open>[]\<close>.
\<close>

theorem category_not_found_view_witness:
  "blog_api (category_request ''missing-cat'') = Inr (reply (JArr []) None) \<and>
   data (reply (JArr []) None) = JArr [] \<and>
   fst (getSidebarData blog_api []) =
     Inr [(''categories'', JArr [news]), (''recentPosts'', JArr [hello])] \<and>
   fst (archive_route string_only blog_api ''missing-cat'' None) =
     \<lparr>status = 404, view = ''error'',
      bag = [(''message'', JStr ''The category you were looking for could not be found.''),
             (''title'', JStr ''Category Not Found''),
             (''categories'', JArr [news]), (''recentPosts'', JArr [hello])]\<rparr>"
proof -
  have a: "blog_api (category_request ''missing-cat'') = Inr (reply (JArr []) None)"
    by (simp add: blog_api_def category_request_def)
  have b: "data (reply (JArr []) None) = JArr [] \<or> \<not> isArray (data (reply (JArr []) None))"
    by (simp add: reply_def)
  have c: "fst (getSidebarData blog_api []) =
     Inr [(''categories'', JArr [news]), (''recentPosts'', JArr [hello])]"
    using getSidebarData_ok [of blog_api _ _ "[]"]
    by (simp add: blog_api_simps reply_def)
  from category_not_found_view
    [where api = blog_api and slug = "''missing-cat''" and toStr = string_only
       and pageNumber = None, OF a b c] a c
  show ?thesis by (simp add: reply_def)
qed

text \<open>
  Claim C10. On the archive route, when both sidebar calls and the category lookup
  succeed and the fetch of the category's posts fails, the handler renders the error
  view with status 500 and a data bag of exactly \<^verbatim>\<open>message\<close> and \<^verbatim>\<open>title\<close>: the sidebar
  data, which \<^verbatim>\<open>getSidebarData\<close> did return, is not in it.
\<close>

theorem archive_posts_failure_drops_sidebar:
  assumes "api categories_request = Inr c"
    and "api recent_posts_request = Inr r"
    and "api (category_request slug) = Inr res"
    and "data res = JArr (category # others)"
    and "get_prop category ''id'' = Inr cid"
    and "api (category_posts_request cid (page_of pageNumber)) = Inl e"
  shows "fst (getSidebarData api []) = Inr [(''categories'', data c), (''recentPosts'', data r)] \<and>
     fst (archive_route toStr api slug pageNumber) =
       \<lparr>status = 500, view = ''error'',
        bag = [(''message'', JStr ''Could not fetch posts for this category.''),
               (''title'', JStr ''Error'')]\<rparr>"
proof -
  have sb: "fst (getSidebarData api []) = Inr [(''categories'', data c), (''recentPosts'', data r)]"
    by (rule getSidebarData_ok [OF assms(1,2)])
  have found: "\<not> not_array_or_empty (data res)" using assms(4) by simp
  have cid: "get_prop (index0 (data res)) ''id'' = Inr cid" using assms(4,5) by simp
  have "fst (archive_fetch_posts toStr api [(''categories'', data c), (''recentPosts'', data r)]
          (index0 (data res)) (page_of pageNumber)
          [categories_request, recent_posts_request, category_request slug]) = Inl e"
    using cid assms(6) by (simp add: archive_fetch_posts_failed)
  then have "fst (archive_route toStr api slug pageNumber) = archive_error"
    using archive_route_found [OF assms(3) found sb, of toStr pageNumber]
    by (simp split: prod.splits sum.splits)
  then show ?thesis using sb by (simp add: archive_error_def render_def)
qed

text \<open>
  \<^verbatim>\<open>GET /category/news\<close> on the upstream whose posts by category fail.
\<close>

theorem archive_posts_failure_drops_sidebar_witness:
  "category_posts_down_api categories_request = Inr (reply (JArr [news]) None) \<and>
   category_posts_down_api recent_posts_request = Inr (reply (JArr [hello]) (Some ''2'')) \<and>
   category_posts_down_api (category_request ''news'') = Inr (reply (JArr [news]) None) \<and>
   get_prop news ''id'' = Inr (JNum (Num 7)) \<and>
   category_posts_down_api (category_posts_request (JNum (Num 7)) (page_of None)) =
     Inl (AxiosError ''Request failed with status code 500'') \<and>
   fst (getSidebarData category_posts_down_api []) =
     Inr [(''categories'', JArr [news]), (''recentPosts'', JArr [hello])] \<and>
   fst (archive_route string_only category_posts_down_api ''news'' None) =
     \<lparr>status = 500, view = ''error'',
      bag = [(''message'', JStr ''Could not fetch posts for this category.''),
             (''title'', JStr ''Error'')]\<rparr>"
proof -
  note s = category_posts_down_api_simps
  have d: "data (reply (JArr [news]) None) = JArr (news # [])" by (simp add: reply_def)
  have i: "get_prop news ''id'' = Inr (JNum (Num 7))" by (simp add: news_def)
  from archive_posts_failure_drops_sidebar
    [where api = category_posts_down_api and slug = "''news''" and toStr = string_only
       and pageNumber = None, OF s(1) s(2) s(3) d i s(4)]
  show ?thesis using s i by (simp add: reply_def)
qed

end
